theory Spec2Isabelle
  imports Main "HOL-Library.Word"
begin

unbundle bit_operations_syntax

section \<open>The audisp-filter plugin (audisp/plugins/filter/audisp-filter.c)\<close>

text \<open>
  The plugin reads audit events from the dispatcher, asks the auparse matching engine
  whether the current event matches one of the configured expressions, and writes the
  records of the events it lets through to a pipe read by a child process.

  The C file is embedded function by function. What the C code does to the outside
  (\<^verbatim>\<open>syslog\<close>, \<^verbatim>\<open>write\<close> on the pipe, \<^verbatim>\<open>kill\<close>, \<^verbatim>\<open>auplugin_stop\<close>) and
  its stores to the two \<^verbatim>\<open>volatile\<close> flags are appended, in program order, to a trace
  kept in the state. What the outside answers (the auparse library, the file system,
  \<^verbatim>\<open>malloc\<close>, the result of each \<^verbatim>\<open>write\<close>, \<^verbatim>\<open>getppid\<close>) is a parameter \<open>env\<close> of every
  function that asks: the theorems hold for every such environment.
\<close>

subsection \<open>Data\<close>

text \<open>\<^verbatim>\<open>struct filter_rule\<close>; the \<^verbatim>\<open>next\<close> pointer is the tail of a HOL list.\<close>

record filter_rule =
  expr :: string
  lineno :: int

text \<open>The anonymous \<^verbatim>\<open>enum { ALLOWLIST, BLOCKLIST }\<close>; \<^verbatim>\<open>config.mode\<close> is an \<^verbatim>\<open>int\<close>.\<close>

definition ALLOWLIST :: int where
  "ALLOWLIST = 0"

definition BLOCKLIST :: int where
  "BLOCKLIST = 1"

text \<open>\<^verbatim>\<open>struct filter_conf\<close>.\<close>

record filter_conf =
  mode :: int
  binary :: string
  binary_args :: "string list"
  config_file :: string
  only_check :: int

text \<open>The arguments of a \<^verbatim>\<open>syslog\<close> call after the format string.\<close>

datatype arg = S string | I int | E int

text \<open>
  The trace: calls to the outside and stores to the volatile flags \<^verbatim>\<open>stop\<close> and
  \<^verbatim>\<open>hup\<close>. \<open>Write bytes\<close> is a \<^verbatim>\<open>write\<close> on \<^verbatim>\<open>pipefd[1]\<close> that put \<open>bytes\<close> into
  the pipe (the buffer, or the start of it), \<open>Write_failed buf\<close> one that returned -1.
\<close>

datatype action =
    Syslog int string "arg list"
  | Write string
  | Write_failed string
  | Kill int int
  | Store_stop int
  | Store_hup int
  | Auplugin_stop

text \<open>The priorities of \<^verbatim>\<open>syslog.h\<close>.\<close>

definition LOG_ERR :: int where
  "LOG_ERR = 3"

definition LOG_WARNING :: int where
  "LOG_WARNING = 4"

definition LOG_INFO :: int where
  "LOG_INFO = 6"

text \<open>
  The global data of the file, with the static local \<^verbatim>\<open>rules_loaded\<close> of
  \<^verbatim>\<open>handle_event\<close>, and the trace. \<^verbatim>\<open>errors\<close> is a C \<^verbatim>\<open>int\<close>; it is counted here
  without a bound (it cannot wrap on a file of fewer than \<open>2^31\<close> lines).
\<close>

record plugin_state =
  stop :: int
  hup :: int
  errors :: int
  list :: "filter_rule list"
  cpid :: int
  config :: filter_conf
  rules_loaded :: int
  trace :: "action list"

text \<open>\<^verbatim>\<open>struct stat\<close>, the two fields \<^verbatim>\<open>load_rules\<close> reads.\<close>

record stat =
  st_uid :: nat
  st_mode :: "32 word"

text \<open>
  An opened config file: what \<^verbatim>\<open>fstat\<close> answers on the descriptor (\<open>Inl\<close> the errno),
  the errno of \<^verbatim>\<open>fdopen\<close> when it fails, and the bytes of the file.
\<close>

record open_file =
  fstat :: "int + stat"
  fdopen_errno :: "int option"
  contents :: string

text \<open>\<^verbatim>\<open>siginfo_t\<close>, the field \<^verbatim>\<open>term_handler\<close> reads.\<close>

record siginfo =
  si_pid :: int

text \<open>
  The environment. \<open>'au\<close> is the state behind an \<^verbatim>\<open>auparse_state_t*\<close>; the auparse
  functions are taken as they are declared in \<^verbatim>\<open>auparse.h\<close>, the state they change passed
  through. \<open>auparse_init\<close> is the call \<^verbatim>\<open>auparse_init(AUSOURCE_BUFFER_ARRAY, buf)\<close> of
  \<^verbatim>\<open>parse_line\<close> (\<open>None\<close> is NULL); \<open>ausearch_add_expression\<close> gives the return code, the
  error text and the new state; \<open>auparse_get_record_text\<close> gives the text of the
  record that \<open>auparse_goto_record_num\<close> went to (a string, not NULL). \<open>malloc_ok\<close>
  and \<open>strdup_ok\<close> say whether the allocation made while parsing the line of that
  number succeeds. \<open>sys_write n count\<close> is what the \<^verbatim>\<open>write\<close> call of \<open>count\<close>
  bytes made after \<open>n\<close> earlier ones returns: -1, or the number of bytes that went into
  the pipe, from 0 to \<open>count\<close> (fewer than \<open>count\<close> when a signal handler runs while
  the write is blocked with part of the buffer transferred; the handlers of this program
  are installed without \<^verbatim>\<open>SA_RESTART\<close>). \<open>sys_open\<close> is \<^verbatim>\<open>open(path, O_RDONLY)\<close>,
  \<open>Inl\<close> the errno.
\<close>

record 'au env =
  auparse_init :: "'au option"
  ausearch_add_expression :: "'au \<Rightarrow> string \<Rightarrow> int \<times> string \<times> 'au"
  ausearch_cur_event :: "'au \<Rightarrow> int"
  ausearch_clear :: "'au \<Rightarrow> 'au"
  ausearch_set_stop :: "'au \<Rightarrow> 'au"
  auparse_get_num_records :: "'au \<Rightarrow> int"
  auparse_goto_record_num :: "'au \<Rightarrow> int \<Rightarrow> 'au"
  auparse_get_record_text :: "'au \<Rightarrow> string"
  malloc_ok :: "int \<Rightarrow> bool"
  strdup_ok :: "int \<Rightarrow> bool"
  sys_open :: "string \<Rightarrow> int + open_file"
  sys_write :: "nat \<Rightarrow> nat \<Rightarrow> int"
  getppid :: int

subsection \<open>Calls to the outside\<close>

definition syslog :: "int \<Rightarrow> string \<Rightarrow> arg list \<Rightarrow> plugin_state \<Rightarrow> plugin_state" where
  "syslog pri fmt args s = s\<lparr>trace := trace s @ [Syslog pri fmt args]\<rparr>"

definition kill :: "int \<Rightarrow> int \<Rightarrow> plugin_state \<Rightarrow> plugin_state" where
  "kill pid sig s = s\<lparr>trace := trace s @ [Kill pid sig]\<rparr>"

definition auplugin_stop :: "plugin_state \<Rightarrow> plugin_state" where
  "auplugin_stop s = s\<lparr>trace := trace s @ [Auplugin_stop]\<rparr>"

definition set_stop :: "int \<Rightarrow> plugin_state \<Rightarrow> plugin_state" where
  "set_stop v s = s\<lparr>stop := v, trace := trace s @ [Store_stop v]\<rparr>"

definition set_hup :: "int \<Rightarrow> plugin_state \<Rightarrow> plugin_state" where
  "set_hup v s = s\<lparr>hup := v, trace := trace s @ [Store_hup v]\<rparr>"

subsection \<open>The SIGTERM handler\<close>

text \<open>
  \<^verbatim>\<open>term_handler(sig, info, ucontext)\<close>: \<open>info\<close> is \<open>None\<close> for a NULL pointer.
\<close>

definition term_handler :: "'au env \<Rightarrow> int \<Rightarrow> siginfo option \<Rightarrow> plugin_state \<Rightarrow> plugin_state" where
  "term_handler env sig info s =
     (if (case info of None \<Rightarrow> False | Some i \<Rightarrow> si_pid i \<noteq> getppid env) then s
      else auplugin_stop (set_stop 1 (kill (cpid s) sig s)))"

subsection \<open>Reading the config file\<close>

definition NL :: char where
  "NL = CHR 0x0A"

definition NUL :: char where
  "NUL = CHR 0x00"

text \<open>The C string in a buffer: the bytes before the first NUL.\<close>

definition c_str :: "string \<Rightarrow> string" where
  "c_str buf = takeWhile (\<lambda>c. c \<noteq> NUL) buf"

text \<open>
  The number of bytes up to and including the first newline of \<open>f\<close>, or to the end of
  \<open>f\<close> when it has none.
\<close>

definition line_end :: "string \<Rightarrow> nat" where
  "line_end f = (if NL \<in> set f then Suc (length (takeWhile (\<lambda>c. c \<noteq> NL) f)) else length f)"

text \<open>
  \<^verbatim>\<open>fgets_unlocked(buf, size, f)\<close> on the unread bytes \<open>f\<close> of the stream: \<open>None\<close> is
  NULL (end of file with nothing read); otherwise the bytes stored in \<open>buf\<close> (at most
  \<open>size - 1\<close>, stopping after a newline) and the bytes left unread. With \<open>size = 1\<close>
  it stores the empty string and reads nothing.
\<close>

definition fgets_unlocked :: "nat \<Rightarrow> string \<Rightarrow> (string \<times> string) option" where
  "fgets_unlocked sz f =
     (if sz = 0 then None
      else if sz = 1 then Some ([], f)
      else if f = [] then None
      else let k = min (sz - 1) (line_end f) in Some (take k f, drop k f))"

lemma fgets_unlocked_shorter:
  "fgets_unlocked sz f = Some (buf, f') \<Longrightarrow> buf \<noteq> [] \<Longrightarrow> length f' < length f"
  by (auto simp: fgets_unlocked_def Let_def split: if_splits)

text \<open>
  The loop of \<^verbatim>\<open>get_line\<close>, with the local \<^verbatim>\<open>too_long\<close> as an argument. The result is
  the line returned (\<open>None\<close> is NULL), the bytes left unread, \<^verbatim>\<open>*lineno\<close> and the trace.
  \<^verbatim>\<open>strchr(buf, 0x0a)\<close> looks at the C string in the buffer. An empty buffer comes back
  from \<^verbatim>\<open>fgets_unlocked\<close> only for \<open>size = 1\<close>, where the C loop never ends; the one
  call, in \<^verbatim>\<open>load_rules\<close>, passes \<^verbatim>\<open>sizeof(buf)\<close>, 1024, and the model stops there.
\<close>

function get_line_loop ::
  "nat \<Rightarrow> bool \<Rightarrow> string \<Rightarrow> int \<Rightarrow> string \<Rightarrow> action list
     \<Rightarrow> string option \<times> string \<times> int \<times> action list" where
  "get_line_loop sz too_long f lno fname tr =
     (case fgets_unlocked sz f of
        None \<Rightarrow> (None, f, lno, tr)
      | Some (buf, f') \<Rightarrow>
          if buf = [] then (None, f', lno, tr)
          else if NL \<in> set (c_str buf) then
            (if \<not> too_long then (Some (takeWhile (\<lambda>c. c \<noteq> NL) (c_str buf)), f', lno, tr)
             else get_line_loop sz False f' (lno + 1) fname tr)
          else get_line_loop sz True f' lno fname
                 (if \<not> too_long
                  then tr @ [Syslog LOG_WARNING ''Skipping line %d in %s: too long'' [I lno, S fname]]
                  else tr))"
  by pat_completeness auto
termination
  by (relation "measure (\<lambda>(sz, too_long, f, lno, fname, tr). length f)")
     (auto dest: fgets_unlocked_shorter)

declare get_line_loop.simps [simp del]

definition get_line ::
  "nat \<Rightarrow> string \<Rightarrow> int \<Rightarrow> string \<Rightarrow> action list \<Rightarrow> string option \<times> string \<times> int \<times> action list" where
  "get_line sz f lno fname tr = get_line_loop sz False f lno fname tr"

lemma get_line_loop_shorter:
  "get_line_loop sz too_long f lno fname tr = (Some line, f', lno', tr') \<Longrightarrow> length f' < length f"
proof (induction sz too_long f lno fname tr rule: get_line_loop.induct)
  case (1 sz too_long f lno fname tr)
  note unf = "1.prems" [unfolded get_line_loop.simps [of sz too_long f lno fname tr]]
  show ?case
  proof (cases "fgets_unlocked sz f")
    case None
    with unf show ?thesis by simp
  next
    case (Some p)
    obtain buf f1 where p: "p = (buf, f1)" by (cases p)
    show ?thesis
    proof (cases "buf = []")
      case True
      with unf Some p show ?thesis by simp
    next
      case False
      have less: "length f1 < length f"
        using Some p False by (simp add: fgets_unlocked_shorter)
      show ?thesis
      proof (cases "NL \<in> set (c_str buf)")
        case True
        show ?thesis
        proof (cases too_long)
          case True
          with unf Some p \<open>buf \<noteq> []\<close> \<open>NL \<in> set (c_str buf)\<close>
          have "get_line_loop sz False f1 (lno + 1) fname tr = (Some line, f', lno', tr')"
            by simp
          with "1.IH"(1) Some p \<open>buf \<noteq> []\<close> \<open>NL \<in> set (c_str buf)\<close> True
          have "length f' < length f1" by simp
          with less show ?thesis by simp
        next
          case False
          with unf Some p \<open>buf \<noteq> []\<close> \<open>NL \<in> set (c_str buf)\<close> less
          show ?thesis by simp
        qed
      next
        case False
        let ?tr = "if \<not> too_long
                   then tr @ [Syslog LOG_WARNING ''Skipping line %d in %s: too long'' [I lno, S fname]]
                   else tr"
        from unf Some p \<open>buf \<noteq> []\<close> False
        have "get_line_loop sz True f1 lno fname ?tr = (Some line, f', lno', tr')"
          by simp
        with "1.IH"(2) Some p \<open>buf \<noteq> []\<close> False
        have "length f' < length f1" by simp
        with less show ?thesis by simp
      qed
    qed
  qed
qed

lemma get_line_shorter:
  "get_line sz f lno fname tr = (Some line, f', lno', tr') \<Longrightarrow> length f' < length f"
  unfolding get_line_def by (rule get_line_loop_shorter)

subsection \<open>Parsing a line\<close>

text \<open>The loop \<^verbatim>\<open>while (*line == ' ') line++\<close>.\<close>

definition skip_spaces :: "string \<Rightarrow> string" where
  "skip_spaces line = dropWhile (\<lambda>c. c = CHR '' '') line"

text \<open>The test \<^verbatim>\<open>!*line || *line == '#'\<close>: an empty line or a comment.\<close>

definition empty_or_comment :: "string \<Rightarrow> bool" where
  "empty_or_comment line = (line = [] \<or> hd line = CHR ''#'')"

text \<open>
  \<^verbatim>\<open>parse_line(line, lineno)\<close>: the rule (\<open>None\<close> is NULL) and the state, where
  \<^verbatim>\<open>errors\<close> and the trace may have changed. \<open>line\<close> is a C string. The rule keeps
  the text from the first byte that is not a space.
\<close>

definition parse_line ::
  "'au env \<Rightarrow> string \<Rightarrow> int \<Rightarrow> plugin_state \<Rightarrow> filter_rule option \<times> plugin_state" where
  "parse_line env line lno s =
     (case auparse_init env of
        None \<Rightarrow> (None, syslog LOG_ERR ''The auparse_init failed'' [] s)
      | Some au \<Rightarrow>
          let line' = skip_spaces line in
          if empty_or_comment line' then (None, s)
          else if \<not> malloc_ok env lno then (None, s)
          else if \<not> strdup_ok env lno then (None, s)
          else
            (case ausearch_add_expression env au line' of
               (rc, error, au') \<Rightarrow>
                 if rc \<noteq> 0
                 then (None,
                       (syslog LOG_ERR ''Invalid expression: %s (%s)'' [S line', S error] s)
                         \<lparr>errors := errors s + 1\<rparr>)
                 else (Some \<lparr>expr = line', lineno = lno\<rparr>, s)))"

subsection \<open>Loading the rules\<close>

text \<open>\<^verbatim>\<open>append_rule\<close>: the new rule becomes the last of the list.\<close>

definition append_rule :: "filter_rule list \<Rightarrow> filter_rule \<Rightarrow> filter_rule list" where
  "append_rule rules rule = rules @ [rule]"

text \<open>
  The \<^verbatim>\<open>while\<close> loop of \<^verbatim>\<open>load_rules\<close> on the unread bytes \<open>f\<close> of the stream:
  the list built and the state.
\<close>

function load_loop ::
  "'au env \<Rightarrow> string \<Rightarrow> int \<Rightarrow> filter_rule list \<Rightarrow> plugin_state
     \<Rightarrow> filter_rule list \<times> plugin_state" where
  "load_loop env f lno rules s =
     (case get_line 1024 f lno (config_file (config s)) (trace s) of
        (None, f', lno', tr') \<Rightarrow> (rules, s\<lparr>trace := tr'\<rparr>)
      | (Some line, f', lno', tr') \<Rightarrow>
          (case parse_line env line (lno' + 1) (s\<lparr>trace := tr'\<rparr>) of
             (None, s') \<Rightarrow> load_loop env f' (lno' + 1) rules s'
           | (Some rule, s') \<Rightarrow> load_loop env f' (lno' + 1) (append_rule rules rule) s'))"
  by pat_completeness auto
termination load_loop
  by (relation "measure (\<lambda>(env, f, lno, rules, s). length f)")
     (auto dest: get_line_shorter [OF sym])

declare load_loop.simps [simp del]

text \<open>The constants of \<^verbatim>\<open>errno.h\<close> and \<^verbatim>\<open>sys/stat.h\<close> that \<^verbatim>\<open>load_rules\<close> uses (Linux).\<close>

definition ENOENT :: int where
  "ENOENT = 2"

definition S_IWOTH :: "32 word" where
  "S_IWOTH = 2"

definition S_IFMT :: "32 word" where
  "S_IFMT = 61440"

definition S_IFREG :: "32 word" where
  "S_IFREG = 32768"

definition S_ISREG :: "32 word \<Rightarrow> bool" where
  "S_ISREG m = (m AND S_IFMT = S_IFREG)"

text \<open>
  \<^verbatim>\<open>load_rules(list)\<close>: the return value, the list left in \<^verbatim>\<open>*list\<close> and the state.
  \<open>E errno\<close> in a message stands for \<^verbatim>\<open>strerror(errno)\<close>.
\<close>

definition load_rules :: "'au env \<Rightarrow> plugin_state \<Rightarrow> int \<times> filter_rule list \<times> plugin_state" where
  "load_rules env s0 =
     (let s = s0\<lparr>errors := 0\<rparr>; path = config_file (config s) in
      case sys_open env path of
        Inl errno \<Rightarrow>
          if errno \<noteq> ENOENT
          then (1, [], syslog LOG_ERR ''Error opening config file (%s)'' [E errno] s)
          else (1, [], syslog LOG_ERR ''Config file %s doesn't exist, skipping'' [S path] s)
      | Inr fl \<Rightarrow>
          (case fstat fl of
             Inl errno \<Rightarrow> (1, [], syslog LOG_ERR ''Error fstat'ing config file (%s)'' [E errno] s)
           | Inr st \<Rightarrow>
               if st_uid st \<noteq> 0
               then (1, [], syslog LOG_ERR ''Error - %s isn't owned by root'' [S path] s)
               else if st_mode st AND S_IWOTH = S_IWOTH
               then (1, [], syslog LOG_ERR ''Error - %s is world writable'' [S path] s)
               else if \<not> S_ISREG (st_mode st)
               then (1, [], syslog LOG_ERR ''Error - %s is not a regular file'' [S path] s)
               else
                 (case fdopen_errno fl of
                    Some errno \<Rightarrow> (1, [], syslog LOG_ERR ''Error - fdopen failed (%s)'' [E errno] s)
                  | None \<Rightarrow>
                      (case load_loop env (contents fl) 0 [] s of
                         (rules, s') \<Rightarrow> (errors s', rules, s')))))"

text \<open>
  \<^verbatim>\<open>reload_config\<close>. \<^verbatim>\<open>free_rules\<close> gives memory back and changes nothing that is
  modelled.
\<close>

definition reload_config :: "'au env \<Rightarrow> plugin_state \<Rightarrow> plugin_state" where
  "reload_config env s =
     (case load_rules env (set_hup 0 s) of
        (rc, new_list, s') \<Rightarrow>
          if rc \<noteq> 0
          then syslog LOG_INFO ''The rules were not reloaded because of a syntax error'' [] s'
          else syslog LOG_INFO ''Successfully reloaded rules'' [] (s'\<lparr>list := new_list\<rparr>))"

subsection \<open>Handling an event\<close>

text \<open>
  The loop of \<^verbatim>\<open>handle_event\<close> that adds every rule of the list to the engine; a rule
  the engine refuses is logged and the loop goes on.
\<close>

fun add_rules :: "'au env \<Rightarrow> filter_rule list \<Rightarrow> 'au \<Rightarrow> plugin_state \<Rightarrow> plugin_state \<times> 'au" where
  "add_rules env [] au s = (s, au)"
| "add_rules env (rule # rules) au s =
     (case ausearch_add_expression env au (expr rule) of
        (rc, error, au') \<Rightarrow>
          add_rules env rules au'
            (if rc \<noteq> 0
             then syslog LOG_ERR ''Failed adding '%s' to ausearch (%s)'' [S (expr rule), S error] s
             else s))"

text \<open>
  The first block of \<^verbatim>\<open>handle_event\<close>: on the first event, and after a SIGHUP, the
  rules are (re)loaded into the engine.
\<close>

definition handle_event_setup :: "'au env \<Rightarrow> 'au \<Rightarrow> plugin_state \<Rightarrow> plugin_state \<times> 'au" where
  "handle_event_setup env au s =
     (if rules_loaded s = 0 \<or> hup s \<noteq> 0 then
        (case (if hup s \<noteq> 0
               then (set_hup 0 (reload_config env s), ausearch_clear env au)
               else (s, au)) of
           (s1, au1) \<Rightarrow>
             (case add_rules env (list s1) (ausearch_set_stop env au1) s1 of
                (s2, au2) \<Rightarrow> (s2\<lparr>rules_loaded := 1\<rparr>, au2)))
      else (s, au))"

text \<open>
  The local \<^verbatim>\<open>forward_event\<close> of \<^verbatim>\<open>handle_event\<close>, from \<^verbatim>\<open>config.mode\<close> and the
  return code of \<^verbatim>\<open>ausearch_cur_event\<close>; \<open>None\<close> on the branch that logs and returns.
\<close>

definition forward_event :: "int \<Rightarrow> int \<Rightarrow> int option" where
  "forward_event m rc =
     (if rc > 0 then Some (if m = ALLOWLIST then 0 else 1)
      else if rc = 0 then Some (if m = ALLOWLIST then 1 else 0)
      else None)"

fun is_write :: "action \<Rightarrow> bool" where
  "is_write (Write buf) = True"
| "is_write (Write_failed buf) = True"
| "is_write a = False"

text \<open>The number of \<^verbatim>\<open>write\<close> calls made so far.\<close>

definition write_calls :: "action list \<Rightarrow> nat" where
  "write_calls tr = length (filter is_write tr)"

text \<open>
  \<^verbatim>\<open>write(pipefd[1], buf, strlen(buf))\<close>: the return value and the state. A return
  value \<open>r\<close> other than -1 means that the first \<open>r\<close> bytes of the buffer are in the
  pipe.
\<close>

definition write_pipe :: "'au env \<Rightarrow> string \<Rightarrow> plugin_state \<Rightarrow> int \<times> plugin_state" where
  "write_pipe env buf s =
     (let r = sys_write env (write_calls (trace s)) (length buf) in
      if r = - 1 then (r, s\<lparr>trace := trace s @ [Write_failed buf]\<rparr>)
      else (r, s\<lparr>trace := trace s @ [Write (take (nat r) buf)]\<rparr>))"

text \<open>
  The loop over the records of the event, from record \<open>i\<close>: the text of each record
  and then a newline are written; the first write that returns -1 is logged and ends
  the function. The return value is compared with -1 only.
\<close>

function forward_records ::
  "'au env \<Rightarrow> int \<Rightarrow> int \<Rightarrow> 'au \<Rightarrow> plugin_state \<Rightarrow> plugin_state \<times> 'au" where
  "forward_records env i records au s =
     (if i < records then
        (let au1 = auparse_goto_record_num env au i;
             txt = auparse_get_record_text env au1 in
         case write_pipe env txt s of
           (r1, s1) \<Rightarrow>
             if r1 = - 1 then (syslog LOG_ERR ''Failed to write to pipe'' [] s1, au1)
             else
               (case write_pipe env [NL] s1 of
                  (r2, s2) \<Rightarrow>
                    if r2 = - 1 then (syslog LOG_ERR ''Failed to write to pipe'' [] s2, au1)
                    else forward_records env (i + 1) records au1 s2))
      else (s, au))"
  by pat_completeness auto
termination
  by (relation "measure (\<lambda>(env, i, records, au, s). nat (records - i))") auto

declare forward_records.simps [simp del]

text \<open>\<^verbatim>\<open>handle_event(au, cb_event_type, user_data)\<close>.\<close>

definition handle_event :: "'au env \<Rightarrow> 'au \<Rightarrow> plugin_state \<Rightarrow> plugin_state \<times> 'au" where
  "handle_event env au s =
     (case handle_event_setup env au s of
        (s1, au1) \<Rightarrow>
          (let rc = ausearch_cur_event env au1 in
           case forward_event (mode (config s1)) rc of
             None \<Rightarrow> (syslog LOG_ERR ''The ausearch_next_event returned %d'' [I rc] s1, au1)
           | Some fwd \<Rightarrow>
               if fwd \<noteq> 0
               then forward_records env 0 (auparse_get_num_records env au1) au1 s1
               else (s1, au1)))"

subsection \<open>Notions used to state the properties\<close>

text \<open>
  The texts of \<open>n\<close> records from record \<open>i\<close> on, as the loop of \<^verbatim>\<open>handle_event\<close>
  reads them (\<^verbatim>\<open>auparse_goto_record_num\<close>, then \<^verbatim>\<open>auparse_get_record_text\<close>), and the
  records of the current event.
\<close>

fun record_texts :: "'au env \<Rightarrow> 'au \<Rightarrow> int \<Rightarrow> nat \<Rightarrow> string list" where
  "record_texts env au i 0 = []"
| "record_texts env au i (Suc n) =
     (let au1 = auparse_goto_record_num env au i
      in auparse_get_record_text env au1 # record_texts env au1 (i + 1) n)"

definition event_records :: "'au env \<Rightarrow> 'au \<Rightarrow> string list" where
  "event_records env au = record_texts env au 0 (nat (auparse_get_num_records env au))"

text \<open>The buffers of the \<^verbatim>\<open>write\<close> calls for a list of records: each text, then a newline.\<close>

definition write_bufs :: "string list \<Rightarrow> string list" where
  "write_bufs rs = concat (map (\<lambda>r. [r, [NL]]) rs)"

text \<open>
  What writing the buffers one after the other leaves in the trace when the calls
  made so far number \<open>w\<close>, the calls return what \<open>wr\<close> says, and writing stops, with
  a log entry, at the first call that returns -1.
\<close>

fun pipe_writes :: "(nat \<Rightarrow> nat \<Rightarrow> int) \<Rightarrow> nat \<Rightarrow> string list \<Rightarrow> action list" where
  "pipe_writes wr w [] = []"
| "pipe_writes wr w (b # bs) =
     (if wr w (length b) = - 1
      then [Write_failed b, Syslog LOG_ERR ''Failed to write to pipe'' []]
      else Write (take (nat (wr w (length b))) b) # pipe_writes wr (Suc w) bs)"

text \<open>The bytes that a trace put into the pipe.\<close>

fun pipe_bytes :: "action list \<Rightarrow> string" where
  "pipe_bytes [] = []"
| "pipe_bytes (Write buf # tr) = buf @ pipe_bytes tr"
| "pipe_bytes (a # tr) = pipe_bytes tr"

text \<open>The priorities of the \<^verbatim>\<open>syslog\<close> calls of a trace.\<close>

fun priorities :: "action list \<Rightarrow> int list" where
  "priorities [] = []"
| "priorities (Syslog pri fmt args # tr) = pri # priorities tr"
| "priorities (a # tr) = priorities tr"

text \<open>The tab character.\<close>

definition TAB :: char where
  "TAB = CHR 0x09"

text \<open>
  The lines that the loop of \<^verbatim>\<open>load_rules\<close> gets from \<^verbatim>\<open>get_line\<close> when it starts on the
  unread bytes \<open>f\<close> with the line counter at \<open>lno\<close>, each with the number it is
  parsed under.
\<close>

function read_lines :: "string \<Rightarrow> int \<Rightarrow> (string \<times> int) list" where
  "read_lines f lno =
     (case get_line 1024 f lno [] [] of
        (None, f', lno', tr') \<Rightarrow> []
      | (Some line, f', lno', tr') \<Rightarrow> (line, lno' + 1) # read_lines f' (lno' + 1))"
  by pat_completeness auto
termination
  by (relation "measure (\<lambda>(f, lno). length f)") (auto dest: get_line_shorter [OF sym])

declare read_lines.simps [simp del]

text \<open>The lines that \<^verbatim>\<open>load_rules\<close> reads from the config file at \<open>path\<close>.\<close>

definition config_lines :: "'au env \<Rightarrow> string \<Rightarrow> (string \<times> int) list" where
  "config_lines env path =
     (case sys_open env path of Inl errno \<Rightarrow> [] | Inr fl \<Rightarrow> read_lines (contents fl) 0)"

text \<open>
  The lines of a text, each with its number in the file when the line before them
  has the number \<open>n\<close>.
\<close>

fun numbered :: "int \<Rightarrow> string list \<Rightarrow> (string \<times> int) list" where
  "numbered n [] = []"
| "numbered n (l # ls) = (l, n + 1) # numbered (n + 1) ls"

text \<open>
  A line is rejected by the engine when \<^verbatim>\<open>parse_line\<close> gives it to
  \<^verbatim>\<open>ausearch_add_expression\<close> and the call does not return 0.
\<close>

definition rejected :: "'au env \<Rightarrow> string \<times> int \<Rightarrow> bool" where
  "rejected env = (\<lambda>(line, lno).
     case auparse_init env of
       None \<Rightarrow> False
     | Some au \<Rightarrow>
         \<not> empty_or_comment (skip_spaces line) \<and> malloc_ok env lno \<and> strdup_ok env lno \<and>
         fst (ausearch_add_expression env au (skip_spaces line)) \<noteq> 0)"

text \<open>The rule of a line that the engine accepts.\<close>

definition line_rule :: "'au env \<Rightarrow> string \<times> int \<Rightarrow> filter_rule option" where
  "line_rule env = (\<lambda>(line, lno).
     case auparse_init env of
       None \<Rightarrow> None
     | Some au \<Rightarrow>
         if \<not> empty_or_comment (skip_spaces line) \<and> malloc_ok env lno \<and> strdup_ok env lno \<and>
            fst (ausearch_add_expression env au (skip_spaces line)) = 0
         then Some \<lparr>expr = skip_spaces line, lineno = lno\<rparr>
         else None)"

text \<open>
  The steps of \<^verbatim>\<open>load_rules\<close> before the first line is read: opening the file, the
  \<^verbatim>\<open>fstat\<close> call, the three checks on its result, and opening the stream with
  \<^verbatim>\<open>fdopen\<close>.
\<close>

definition gate_failed :: "'au env \<Rightarrow> string \<Rightarrow> bool" where
  "gate_failed env path =
     (case sys_open env path of
        Inl errno \<Rightarrow> True
      | Inr fl \<Rightarrow>
          (case fstat fl of
             Inl errno \<Rightarrow> True
           | Inr st \<Rightarrow>
               st_uid st \<noteq> 0 \<or> st_mode st AND S_IWOTH = S_IWOTH \<or> \<not> S_ISREG (st_mode st) \<or>
               fdopen_errno fl \<noteq> None))"

subsection \<open>A small environment for the examples\<close>

text \<open>
  An engine that keeps the expressions added, the record texts of the current event
  and the record it stands on. It accepts an expression that holds a \<open>=\<close>; an event
  matches when one of its records is one of the expressions; an event without records
  is an error.
\<close>

record toy_au =
  exprs :: "string list"
  recs :: "string list"
  cur :: nat

definition toy_add :: "toy_au \<Rightarrow> string \<Rightarrow> int \<times> string \<times> toy_au" where
  "toy_add au e =
     (if CHR ''='' \<in> set e then (0, [], au\<lparr>exprs := exprs au @ [e]\<rparr>)
      else (- 1, ''syntax error'', au))"

definition toy_cur_event :: "toy_au \<Rightarrow> int" where
  "toy_cur_event au =
     (if recs au = [] then - 1 else if \<exists>r \<in> set (recs au). r \<in> set (exprs au) then 1 else 0)"

definition toy_text :: "toy_au \<Rightarrow> string" where
  "toy_text au = (if cur au < length (recs au) then recs au ! cur au else [])"

definition toy_file :: "string \<Rightarrow> open_file" where
  "toy_file bytes =
     \<lparr>fstat = Inr \<lparr>st_uid = 0, st_mode = 33184\<rparr>, fdopen_errno = None, contents = bytes\<rparr>"

definition toy_env :: "string \<Rightarrow> toy_au env" where
  "toy_env bytes =
     \<lparr>auparse_init = Some \<lparr>exprs = [], recs = [], cur = 0\<rparr>,
      ausearch_add_expression = toy_add,
      ausearch_cur_event = toy_cur_event,
      ausearch_clear = (\<lambda>au. au\<lparr>exprs := []\<rparr>),
      ausearch_set_stop = (\<lambda>au. au),
      auparse_get_num_records = (\<lambda>au. int (length (recs au))),
      auparse_goto_record_num = (\<lambda>au i. au\<lparr>cur := nat i\<rparr>),
      auparse_get_record_text = toy_text,
      malloc_ok = (\<lambda>n. True),
      strdup_ok = (\<lambda>n. True),
      sys_open = (\<lambda>p. Inr (toy_file bytes)),
      sys_write = (\<lambda>n count. int count),
      getppid = 1\<rparr>"

definition toy_conf :: "int \<Rightarrow> filter_conf" where
  "toy_conf m = \<lparr>mode = m, binary = ''/bin/cat'', binary_args = [''/bin/cat''],
     config_file = ''/etc/audit/filter.conf'', only_check = 0\<rparr>"

definition toy_state :: "int \<Rightarrow> plugin_state" where
  "toy_state m = \<lparr>stop = 0, hup = 0, errors = 0, list = [], cpid = 4242, config = toy_conf m,
     rules_loaded = 0, trace = []\<rparr>"

text \<open>The same with another owner and mode of the config file.\<close>

definition toy_stat_env :: "nat \<Rightarrow> 32 word \<Rightarrow> string \<Rightarrow> toy_au env" where
  "toy_stat_env uid m bytes =
     (toy_env bytes)\<lparr>sys_open := (\<lambda>p. Inr ((toy_file bytes)\<lparr>fstat := Inr \<lparr>st_uid = uid, st_mode = m\<rparr>\<rparr>))\<rparr>"

text \<open>An event of two records and a rule list of one rule.\<close>

definition toy_event :: toy_au where
  "toy_event = \<lparr>exprs = [], recs = [''arch=b64'', ''uid=0''], cur = 0\<rparr>"

definition toy_rules :: "filter_rule list" where
  "toy_rules = [\<lparr>expr = ''uid=0'', lineno = 1\<rparr>]"

text \<open>
  An event of one record of 5000 bytes, more than a pipe takes in one piece
  (\<^verbatim>\<open>PIPE_BUF\<close> is 4096), and an environment where the first \<^verbatim>\<open>write\<close> is interrupted
  after 4096 bytes.
\<close>

definition big_record :: string where
  "big_record = replicate 5000 (CHR ''a'')"

definition big_event :: toy_au where
  "big_event = \<lparr>exprs = [], recs = [big_record], cur = 0\<rparr>"

definition short_write_env :: "toy_au env" where
  "short_write_env =
     (toy_env [])\<lparr>sys_write := (\<lambda>n count. if n = 0 then min 4096 (int count) else int count)\<rparr>"

text \<open>A config file of five lines, the fourth not an expression; a line of 1100 bytes.\<close>

definition toy_bytes :: string where
  "toy_bytes = ''arch=b64'' @ [NL] @ ''  # comment'' @ [NL] @ [NL] @ ''bad'' @ [NL] @ '' uid=0'' @ [NL]"

definition long_line :: string where
  "long_line = replicate 1100 (CHR ''a'')"

lemmas toy_defs = toy_env_def toy_state_def toy_conf_def toy_file_def toy_add_def
  toy_cur_event_def toy_text_def

section \<open>Theorems\<close>

subsection \<open>The SIGTERM handler\<close>

text \<open>
  C8. A termination signal whose sender is not the parent process leaves the whole
  state as it was: the stop flag is not stored to, no signal is relayed and
  \<^verbatim>\<open>auplugin_stop\<close> is not called (the trace is the same). A termination signal sent by the
  parent is first relayed, the same signal, to the consumer process \<^verbatim>\<open>cpid\<close>; then the
  stop flag is set to 1; then the event feed is stopped.
\<close>

theorem term_handler_parent_only:
  "(si_pid i \<noteq> getppid env \<longrightarrow> term_handler env sig (Some i) s = s) \<and>
   (si_pid i = getppid env \<longrightarrow>
      term_handler env sig (Some i) s =
        s\<lparr>stop := 1, trace := trace s @ [Kill (cpid s) sig, Store_stop 1, Auplugin_stop]\<rparr>)"
  by (simp add: term_handler_def auplugin_stop_def set_stop_def kill_def)

text \<open>
  SIGTERM (15) from process 7 and from the parent, process 1, with the consumer
  running as process 4242.
\<close>

theorem term_handler_parent_only_witness:
  "term_handler (toy_env []) 15 (Some \<lparr>si_pid = 7\<rparr>) (toy_state 0) = toy_state 0 \<and>
   term_handler (toy_env []) 15 (Some \<lparr>si_pid = 1\<rparr>) (toy_state 0) =
     (toy_state 0)\<lparr>stop := 1, trace := [Kill 4242 15, Store_stop 1, Auplugin_stop]\<rparr>"
  using term_handler_parent_only [of "\<lparr>si_pid = 7\<rparr>" "toy_env []" 15 "toy_state 0"]
    term_handler_parent_only [of "\<lparr>si_pid = 1\<rparr>" "toy_env []" 15 "toy_state 0"]
  by (simp add: toy_env_def toy_state_def)

subsection \<open>Forward or drop\<close>

text \<open>
  C1. Let \<open>s1\<close>, \<open>au1\<close> be the state and the engine after the first block of
  \<^verbatim>\<open>handle_event\<close>, \<open>rc\<close> what the engine returns for the current event, and \<open>fw\<close> the
  result of the forwarding loop. In allowlist mode the event is forwarded exactly when
  the engine reports no match (\<open>rc = 0\<close>), and dropped, nothing written or logged, when
  it reports a match (\<open>rc > 0\<close>). In blocklist mode the event is forwarded exactly when
  the engine reports a match. When the engine returns an error (\<open>rc < 0\<close>) the event
  is neither forwarded nor dropped: \<^verbatim>\<open>handle_event\<close> logs the return code and returns,
  and nothing is written to the pipe.
\<close>

theorem handle_event_classify:
  assumes pre: "handle_event_setup env au s = (s1, au1)"
    and rc: "rc = ausearch_cur_event env au1"
    and fw: "fw = forward_records env 0 (auparse_get_num_records env au1) au1 s1"
  shows "(mode (config s1) = ALLOWLIST \<longrightarrow>
            (forward_event (mode (config s1)) rc = Some 1 \<longleftrightarrow> rc = 0) \<and>
            (rc = 0 \<longrightarrow> handle_event env au s = fw) \<and>
            (rc > 0 \<longrightarrow> handle_event env au s = (s1, au1))) \<and>
         (mode (config s1) = BLOCKLIST \<longrightarrow>
            (forward_event (mode (config s1)) rc = Some 1 \<longleftrightarrow> rc > 0) \<and>
            (rc > 0 \<longrightarrow> handle_event env au s = fw) \<and>
            (rc = 0 \<longrightarrow> handle_event env au s = (s1, au1))) \<and>
         (rc < 0 \<longrightarrow>
            forward_event (mode (config s1)) rc = None \<and>
            handle_event env au s =
              (s1\<lparr>trace := trace s1 @ [Syslog LOG_ERR ''The ausearch_next_event returned %d'' [I rc]]\<rparr>,
               au1))"
  using pre rc fw
  by (simp add: handle_event_def forward_event_def ALLOWLIST_def BLOCKLIST_def syslog_def Let_def)

lemma toy_forward:
  "forward_records (toy_env []) 0 2 (toy_event\<lparr>exprs := [''uid=0'']\<rparr>)
       ((toy_state m)\<lparr>list := toy_rules, rules_loaded := 1\<rparr>) =
     ((toy_state m)\<lparr>list := toy_rules, rules_loaded := 1,
        trace := [Write ''arch=b64'', Write [NL], Write ''uid=0'', Write [NL]]\<rparr>,
      toy_event\<lparr>exprs := [''uid=0''], cur := 1\<rparr>)"
  by (simp add: forward_records.simps toy_defs toy_event_def toy_rules_def write_pipe_def write_calls_def)

lemma toy_setup:
  "handle_event_setup (toy_env []) toy_event ((toy_state m)\<lparr>list := toy_rules\<rparr>) =
     ((toy_state m)\<lparr>list := toy_rules, rules_loaded := 1\<rparr>, toy_event\<lparr>exprs := [''uid=0'']\<rparr>)"
  by (simp add: handle_event_setup_def toy_defs toy_event_def toy_rules_def)

text \<open>
  A blocklist and an allowlist filter with the rule \<open>uid=0\<close>, and an event with the
  records \<open>arch=b64\<close> and \<open>uid=0\<close>: the first forwards it, the second drops it. On an
  event for which the engine returns -1 the error is logged and nothing is written.
\<close>

theorem handle_event_classify_witness:
  "handle_event (toy_env []) toy_event ((toy_state BLOCKLIST)\<lparr>list := toy_rules\<rparr>) =
     ((toy_state BLOCKLIST)\<lparr>list := toy_rules, rules_loaded := 1,
        trace := [Write ''arch=b64'', Write [NL], Write ''uid=0'', Write [NL]]\<rparr>,
      toy_event\<lparr>exprs := [''uid=0''], cur := 1\<rparr>) \<and>
   handle_event (toy_env []) toy_event ((toy_state ALLOWLIST)\<lparr>list := toy_rules\<rparr>) =
     ((toy_state ALLOWLIST)\<lparr>list := toy_rules, rules_loaded := 1\<rparr>,
      toy_event\<lparr>exprs := [''uid=0'']\<rparr>) \<and>
   handle_event (toy_env []) (toy_event\<lparr>recs := []\<rparr>) ((toy_state ALLOWLIST)\<lparr>list := toy_rules\<rparr>) =
     ((toy_state ALLOWLIST)\<lparr>list := toy_rules, rules_loaded := 1,
        trace := [Syslog LOG_ERR ''The ausearch_next_event returned %d'' [I (- 1)]]\<rparr>,
      toy_event\<lparr>exprs := [''uid=0''], recs := []\<rparr>)"
proof -
  have rc: "1 = ausearch_cur_event (toy_env []) (toy_event\<lparr>exprs := [''uid=0'']\<rparr>)"
    by (simp add: toy_defs toy_event_def toy_rules_def)
  have n: "auparse_get_num_records (toy_env []) (toy_event\<lparr>exprs := [''uid=0'']\<rparr>) = 2"
    by (simp add: toy_defs toy_event_def toy_rules_def)
  have mb: "mode (config ((toy_state BLOCKLIST)\<lparr>list := toy_rules, rules_loaded := 1\<rparr>)) = BLOCKLIST"
    and ma: "mode (config ((toy_state ALLOWLIST)\<lparr>list := toy_rules, rules_loaded := 1\<rparr>)) = ALLOWLIST"
    by (simp_all add: toy_defs toy_event_def toy_rules_def)
  have pre: "handle_event_setup (toy_env []) (toy_event\<lparr>recs := []\<rparr>)
       ((toy_state ALLOWLIST)\<lparr>list := toy_rules\<rparr>) =
     ((toy_state ALLOWLIST)\<lparr>list := toy_rules, rules_loaded := 1\<rparr>,
      toy_event\<lparr>exprs := [''uid=0''], recs := []\<rparr>)"
    by (simp add: handle_event_setup_def toy_defs toy_event_def toy_rules_def)
  have err: "- 1 = ausearch_cur_event (toy_env []) (toy_event\<lparr>exprs := [''uid=0''], recs := []\<rparr>)"
    by (simp add: toy_defs toy_event_def toy_rules_def)
  have 1: "handle_event (toy_env []) toy_event ((toy_state BLOCKLIST)\<lparr>list := toy_rules\<rparr>) =
     ((toy_state BLOCKLIST)\<lparr>list := toy_rules, rules_loaded := 1,
        trace := [Write ''arch=b64'', Write [NL], Write ''uid=0'', Write [NL]]\<rparr>,
      toy_event\<lparr>exprs := [''uid=0''], cur := 1\<rparr>)"
    using handle_event_classify [OF toy_setup rc refl, of BLOCKLIST] mb
    by (simp add: n toy_forward)
  have 2: "handle_event (toy_env []) toy_event ((toy_state ALLOWLIST)\<lparr>list := toy_rules\<rparr>) =
     ((toy_state ALLOWLIST)\<lparr>list := toy_rules, rules_loaded := 1\<rparr>,
      toy_event\<lparr>exprs := [''uid=0'']\<rparr>)"
    using handle_event_classify [OF toy_setup rc refl, of ALLOWLIST] ma
    by simp
  have 3: "handle_event (toy_env []) (toy_event\<lparr>recs := []\<rparr>) ((toy_state ALLOWLIST)\<lparr>list := toy_rules\<rparr>) =
     ((toy_state ALLOWLIST)\<lparr>list := toy_rules, rules_loaded := 1,
        trace := [Syslog LOG_ERR ''The ausearch_next_event returned %d'' [I (- 1)]]\<rparr>,
      toy_event\<lparr>exprs := [''uid=0''], recs := []\<rparr>)"
    using handle_event_classify [OF pre err refl]
    by (simp add: toy_defs toy_event_def toy_rules_def)
  from 1 2 3 show ?thesis by simp
qed

subsection \<open>Forwarding the records\<close>

lemma write_calls_simps [simp]:
  "write_calls [] = 0"
  "write_calls (a # tr) = (if is_write a then Suc (write_calls tr) else write_calls tr)"
  "write_calls (tr @ tr') = write_calls tr + write_calls tr'"
  by (simp_all add: write_calls_def)

lemma forward_records_trace:
  "fst (forward_records env i records au s) =
     s\<lparr>trace := trace s @
        pipe_writes (sys_write env) (write_calls (trace s))
          (write_bufs (record_texts env au i (nat (records - i))))\<rparr>"
proof (induction env i records au s rule: forward_records.induct)
  case (1 env i records au s)
  show ?case
  proof (cases "i < records")
    case False
    then show ?thesis by (simp add: forward_records.simps [of env i records au s] write_bufs_def)
  next
    case True
    then obtain n where n: "nat (records - i) = Suc n" "nat (records - (i + 1)) = n"
      by (cases "nat (records - i)") auto
    define au1 where "au1 = auparse_goto_record_num env au i"
    define t where "t = auparse_get_record_text env au1"
    define r1 where "r1 = sys_write env (write_calls (trace s)) (length t)"
    define r2 where "r2 = sys_write env (Suc (write_calls (trace s))) (Suc 0)"
    show ?thesis
    proof (cases "r1 = - 1")
      case True
      with \<open>i < records\<close> n show ?thesis
        by (simp add: forward_records.simps [of env i records au s] write_bufs_def write_pipe_def
            syslog_def Let_def au1_def t_def r1_def)
    next
      case nf1: False
      let ?s1 = "s\<lparr>trace := trace s @ [Write (take (nat r1) t)]\<rparr>"
      have w1: "write_pipe env t s = (r1, ?s1)"
        using nf1 by (simp add: write_pipe_def Let_def r1_def)
      show ?thesis
      proof (cases "r2 = - 1")
        case True
        with \<open>i < records\<close> n nf1 show ?thesis
          by (simp add: forward_records.simps [of env i records au s] write_bufs_def write_pipe_def
              syslog_def Let_def au1_def t_def r1_def r2_def)
      next
        case nf2: False
        let ?s2 = "s\<lparr>trace := trace s @ [Write (take (nat r1) t), Write (take (nat r2) [NL])]\<rparr>"
        have w2: "write_pipe env [NL] ?s1 = (r2, ?s2)"
          using nf2 by (simp add: write_pipe_def Let_def r2_def)
        have IH: "fst (forward_records env (i + 1) records au1 ?s2) =
           ?s2\<lparr>trace := trace ?s2 @
              pipe_writes (sys_write env) (write_calls (trace ?s2))
                (write_bufs (record_texts env au1 (i + 1) (nat (records - (i + 1)))))\<rparr>"
          by (rule "1.IH" [OF \<open>i < records\<close> au1_def t_def w1 [symmetric] nf1 w2 [symmetric] nf2])
        have "forward_records env i records au s = forward_records env (i + 1) records au1 ?s2"
          using \<open>i < records\<close> w1 w2 nf1 nf2
          by (simp add: forward_records.simps [of env i records au s] Let_def au1_def [symmetric]
              t_def [symmetric])
        with IH n nf1 nf2 show ?thesis
          by (simp add: write_bufs_def Let_def au1_def [symmetric] t_def [symmetric]
              r1_def [symmetric] r2_def [symmetric])
      qed
    qed
  qed
qed

lemma pipe_writes_all_whole:
  "(\<forall>j < length bs. wr (w + j) (length (bs ! j)) = int (length (bs ! j))) \<Longrightarrow>
     pipe_writes wr w bs = map Write bs"
proof (induction bs arbitrary: w)
  case Nil
  show ?case by simp
next
  case (Cons b bs)
  from Cons.prems have b: "wr w (length b) = int (length b)" by force
  have "\<forall>j < length bs. wr (Suc w + j) (length (bs ! j)) = int (length (bs ! j))"
  proof (intro allI impI)
    fix j
    assume "j < length bs"
    with Cons.prems have "wr (w + Suc j) (length ((b # bs) ! Suc j)) = int (length ((b # bs) ! Suc j))"
      by (metis Suc_less_eq length_Cons)
    then show "wr (Suc w + j) (length (bs ! j)) = int (length (bs ! j))" by simp
  qed
  with Cons.IH [of "Suc w"] b show ?case by simp
qed

lemma pipe_writes_fails_at:
  "k < length bs \<Longrightarrow> (\<forall>j < k. wr (w + j) (length (bs ! j)) = int (length (bs ! j))) \<Longrightarrow>
   wr (w + k) (length (bs ! k)) = - 1 \<Longrightarrow>
     pipe_writes wr w bs =
       map Write (take k bs) @ [Write_failed (bs ! k), Syslog LOG_ERR ''Failed to write to pipe'' []]"
proof (induction bs arbitrary: w k)
  case Nil
  then show ?case by simp
next
  case (Cons b bs)
  show ?case
  proof (cases k)
    case 0
    with Cons.prems show ?thesis by simp
  next
    case (Suc k')
    from Cons.prems Suc have b: "wr w (length b) = int (length b)" by force
    have k': "k' < length bs" using Cons.prems Suc by simp
    have all: "\<forall>j < k'. wr (Suc w + j) (length (bs ! j)) = int (length (bs ! j))"
    proof (intro allI impI)
      fix j
      assume "j < k'"
      then have "Suc j < k" using Suc by simp
      with Cons.prems(2) have "wr (w + Suc j) (length ((b # bs) ! Suc j)) = int (length ((b # bs) ! Suc j))"
        by blast
      then show "wr (Suc w + j) (length (bs ! j)) = int (length (bs ! j))" by simp
    qed
    have bad: "wr (Suc w + k') (length (bs ! k')) = - 1"
      using Cons.prems(3) Suc by simp
    from Cons.IH [OF k' all bad] b Suc show ?thesis by simp
  qed
qed

lemma pipe_bytes_append: "pipe_bytes (tr @ tr') = pipe_bytes tr @ pipe_bytes tr'"
  by (induction tr rule: pipe_bytes.induct) simp_all

lemma pipe_bytes_map_Write: "pipe_bytes (map Write bs) = concat bs"
  by (induction bs) simp_all

lemma concat_write_bufs: "concat (write_bufs rs) = concat (map (\<lambda>r. r @ [NL]) rs)"
  by (induction rs) (simp_all add: write_bufs_def)

lemma length_write_bufs: "length (write_bufs rs) = 2 * length rs"
  by (induction rs) (simp_all add: write_bufs_def)

lemma handle_event_forwarding:
  assumes "handle_event_setup env au s = (s1, au1)"
    and "forward_event (mode (config s1)) (ausearch_cur_event env au1) = Some 1"
  shows "fst (handle_event env au s) =
           s1\<lparr>trace := trace s1 @
              pipe_writes (sys_write env) (write_calls (trace s1)) (write_bufs (event_records env au1))\<rparr>"
  using assms
  by (simp add: handle_event_def Let_def forward_records_trace event_records_def)

text \<open>
  What the loop does when no write is cut short. Let an event be forwarded, \<open>rs\<close> its
  records, \<open>bs\<close> the buffers of its writes and \<open>w\<close> the number of \<^verbatim>\<open>write\<close> calls made
  before. If every write returns the length of its buffer, \<^verbatim>\<open>handle_event\<close> adds to
  the trace exactly the writes of \<open>r1\<close>, newline, \<open>r2\<close>, newline, ... in record order,
  and the bytes put into the pipe are \<open>r1\<close> newline \<open>r2\<close> newline ... If the write
  number \<open>k\<close> returns -1 after whole writes, the trace gets the \<open>k\<close> writes before it,
  the failed write and the log entry, and no later write; \<^verbatim>\<open>handle_event\<close> returns with
  the state otherwise as it was.
\<close>

lemma handle_event_whole_writes:
  assumes pre: "handle_event_setup env au s = (s1, au1)"
    and fwd: "forward_event (mode (config s1)) (ausearch_cur_event env au1) = Some 1"
    and rs: "rs = event_records env au1"
    and bs: "bs = write_bufs rs"
    and w: "w = write_calls (trace s1)"
  shows "((\<forall>j < 2 * length rs. sys_write env (w + j) (length (bs ! j)) = int (length (bs ! j))) \<longrightarrow>
            fst (handle_event env au s) = s1\<lparr>trace := trace s1 @ map Write bs\<rparr> \<and>
            pipe_bytes (trace (fst (handle_event env au s))) =
              pipe_bytes (trace s1) @ concat (map (\<lambda>r. r @ [NL]) rs)) \<and>
         (\<forall>k < 2 * length rs.
            (\<forall>j < k. sys_write env (w + j) (length (bs ! j)) = int (length (bs ! j))) \<and>
            sys_write env (w + k) (length (bs ! k)) = - 1 \<longrightarrow>
            fst (handle_event env au s) =
              s1\<lparr>trace := trace s1 @ map Write (take k bs) @
                 [Write_failed (bs ! k), Syslog LOG_ERR ''Failed to write to pipe'' []]\<rparr>)"
proof (intro conjI impI allI)
  assume ok: "\<forall>j < 2 * length rs. sys_write env (w + j) (length (bs ! j)) = int (length (bs ! j))"
  then have "pipe_writes (sys_write env) w bs = map Write bs"
    by (intro pipe_writes_all_whole) (simp add: bs length_write_bufs)
  then show a: "fst (handle_event env au s) = s1\<lparr>trace := trace s1 @ map Write bs\<rparr>"
    using handle_event_forwarding [OF pre fwd] rs bs w by simp
  show "pipe_bytes (trace (fst (handle_event env au s))) =
          pipe_bytes (trace s1) @ concat (map (\<lambda>r. r @ [NL]) rs)"
    by (simp add: a bs pipe_bytes_append pipe_bytes_map_Write concat_write_bufs)
next
  fix k
  assume k: "k < 2 * length rs"
    and "(\<forall>j < k. sys_write env (w + j) (length (bs ! j)) = int (length (bs ! j))) \<and>
         sys_write env (w + k) (length (bs ! k)) = - 1"
  then have "pipe_writes (sys_write env) w bs =
      map Write (take k bs) @ [Write_failed (bs ! k), Syslog LOG_ERR ''Failed to write to pipe'' []]"
    by (intro pipe_writes_fails_at) (simp_all add: bs length_write_bufs)
  then show "fst (handle_event env au s) =
      s1\<lparr>trace := trace s1 @ map Write (take k bs) @
         [Write_failed (bs ! k), Syslog LOG_ERR ''Failed to write to pipe'' []]\<rparr>"
    using handle_event_forwarding [OF pre fwd] rs bs w by simp
qed

text \<open>
  The two cases on an event of two records that a blocklist filter forwards: every
  write whole, and the third write returning -1.
\<close>

lemma handle_event_whole_writes_example:
  "fst (handle_event (toy_env []) toy_event ((toy_state BLOCKLIST)\<lparr>list := toy_rules\<rparr>)) =
     (toy_state BLOCKLIST)\<lparr>list := toy_rules, rules_loaded := 1,
        trace := [Write ''arch=b64'', Write [NL], Write ''uid=0'', Write [NL]]\<rparr> \<and>
   pipe_bytes (trace (fst (handle_event (toy_env []) toy_event
        ((toy_state BLOCKLIST)\<lparr>list := toy_rules\<rparr>)))) =
     ''arch=b64'' @ [NL] @ ''uid=0'' @ [NL] \<and>
   fst (handle_event ((toy_env [])\<lparr>sys_write := (\<lambda>n count. if n = 2 then - 1 else int count)\<rparr>)
        toy_event ((toy_state BLOCKLIST)\<lparr>list := toy_rules\<rparr>)) =
     (toy_state BLOCKLIST)\<lparr>list := toy_rules, rules_loaded := 1,
        trace := [Write ''arch=b64'', Write [NL], Write_failed ''uid=0'',
                  Syslog LOG_ERR ''Failed to write to pipe'' []]\<rparr>"
proof -
  let ?s = "(toy_state BLOCKLIST)\<lparr>list := toy_rules\<rparr>"
  let ?s1 = "(toy_state BLOCKLIST)\<lparr>list := toy_rules, rules_loaded := 1\<rparr>"
  let ?au1 = "toy_event\<lparr>exprs := [''uid=0'']\<rparr>"
  let ?env = "(toy_env [])\<lparr>sys_write := (\<lambda>n count. if n = 2 then - 1 else int count)\<rparr>"
  let ?bs = "[''arch=b64'', [NL], ''uid=0'', [NL]]"
  have pre: "handle_event_setup ?env toy_event ?s = (?s1, ?au1)"
    by (simp add: handle_event_setup_def toy_defs toy_event_def toy_rules_def)
  have fwd: "forward_event (mode (config ?s1)) (ausearch_cur_event (toy_env []) ?au1) = Some 1"
    "forward_event (mode (config ?s1)) (ausearch_cur_event ?env ?au1) = Some 1"
    by (simp_all add: forward_event_def toy_defs toy_event_def toy_rules_def ALLOWLIST_def BLOCKLIST_def)
  have rs: "[''arch=b64'', ''uid=0''] = event_records (toy_env []) ?au1"
    "[''arch=b64'', ''uid=0''] = event_records ?env ?au1"
    by (simp_all add: event_records_def toy_defs toy_event_def toy_rules_def eval_nat_numeral)
  have bs: "?bs = write_bufs [''arch=b64'', ''uid=0'']"
    by (simp add: write_bufs_def)
  have w: "0 = write_calls (trace ?s1)"
    by (simp add: toy_defs toy_event_def toy_rules_def)
  have ok: "\<forall>j < 2 * length [''arch=b64'', ''uid=0''].
      sys_write (toy_env []) (0 + j) (length (?bs ! j)) = int (length (?bs ! j))"
    by (simp add: toy_defs)
  have bad: "(2::nat) < 2 * length [''arch=b64'', ''uid=0'']"
    "(\<forall>j < 2. sys_write ?env (0 + j) (length (?bs ! j)) = int (length (?bs ! j))) \<and>
     sys_write ?env (0 + 2) (length (?bs ! 2)) = - 1"
    by (simp_all add: toy_defs)
  note a = handle_event_whole_writes [OF toy_setup fwd(1) rs(1) bs w, THEN conjunct1, THEN mp, OF ok]
  note b = handle_event_whole_writes [OF pre fwd(2) rs(2) bs w, THEN conjunct2, THEN spec,
      THEN mp, OF bad(1), THEN mp, OF bad(2)]
  have t: "trace ?s1 = []"
    by (simp add: toy_defs)
  from a b show ?thesis
    by (simp add: t)
qed

text \<open>
  C4. For a forwarded event with records \<open>r1, ..., rn\<close> the bytes written to the pipe
  should be exactly \<open>r1\<close>, a newline, \<open>r2\<close>, a newline, ... The code departs from this
  where a write is cut short. An allowlist filter with the rule \<open>uid=0\<close> forwards an
  event of one record of 5000 bytes. The first \<^verbatim>\<open>write\<close> returns 4096: a signal handler
  ran while it was blocked with the pipe full. \<^verbatim>\<open>handle_event\<close> compares the return value
  with -1 only (lines 133-134), takes the write for a success, writes the newline and
  returns without a log entry. The bytes in the pipe are the first 4096 bytes of the
  record and a newline, not the record and a newline; the other 904 bytes are never
  written.
\<close>

theorem handle_event_short_write:
  "fst (handle_event short_write_env big_event ((toy_state ALLOWLIST)\<lparr>list := toy_rules\<rparr>)) =
     (toy_state ALLOWLIST)\<lparr>list := toy_rules, rules_loaded := 1,
        trace := [Write (replicate 4096 (CHR ''a'')), Write [NL]]\<rparr> \<and>
   event_records short_write_env (big_event\<lparr>exprs := [''uid=0'']\<rparr>) = [big_record] \<and>
   pipe_bytes (trace (fst (handle_event short_write_env big_event
        ((toy_state ALLOWLIST)\<lparr>list := toy_rules\<rparr>)))) =
     replicate 4096 (CHR ''a'') @ [NL] \<and>
   pipe_bytes (trace (fst (handle_event short_write_env big_event
        ((toy_state ALLOWLIST)\<lparr>list := toy_rules\<rparr>)))) \<noteq>
     big_record @ [NL]"
proof -
  let ?s = "(toy_state ALLOWLIST)\<lparr>list := toy_rules\<rparr>"
  let ?s1 = "(toy_state ALLOWLIST)\<lparr>list := toy_rules, rules_loaded := 1\<rparr>"
  let ?au1 = "big_event\<lparr>exprs := [''uid=0'']\<rparr>"
  have pre: "handle_event_setup short_write_env big_event ?s = (?s1, ?au1)"
    by (simp add: handle_event_setup_def short_write_env_def big_event_def toy_defs toy_rules_def)
  have ne: "''uid=0'' \<noteq> big_record"
  proof
    assume "''uid=0'' = big_record"
    then have "length ''uid=0'' = length big_record"
      by (rule arg_cong)
    then show False
      by (simp add: big_record_def)
  qed
  have fwd: "forward_event (mode (config ?s1)) (ausearch_cur_event short_write_env ?au1) = Some 1"
    using ne by (simp add: forward_event_def short_write_env_def big_event_def toy_defs ALLOWLIST_def)
  have rs: "event_records short_write_env ?au1 = [big_record]"
    by (simp add: event_records_def short_write_env_def big_event_def toy_defs)
  have len: "length big_record = 5000"
    by (simp add: big_record_def)
  have w: "sys_write short_write_env 0 5000 = 4096" "sys_write short_write_env (Suc 0) (Suc 0) = 1"
    by (simp_all add: short_write_env_def toy_defs)
  have t: "take 4096 big_record = replicate 4096 (CHR ''a'')"
    by (simp add: big_record_def)
  have 1: "fst (handle_event short_write_env big_event ?s) =
      ?s1\<lparr>trace := [Write (replicate 4096 (CHR ''a'')), Write [NL]]\<rparr>"
    using handle_event_forwarding [OF pre fwd]
    by (simp add: rs write_bufs_def len w t toy_defs)
  have 2: "replicate 4096 (CHR ''a'') @ [NL] \<noteq> big_record @ [NL]"
    by (simp add: big_record_def)
  from 1 2 rs show ?thesis by simp
qed

subsection \<open>Loading the rules: the gate\<close>

text \<open>
  C3. When the config file opens and \<^verbatim>\<open>fstat\<close> on the descriptor shows an owner
  other than uid 0, or the bit \<^verbatim>\<open>S_IWOTH\<close> set, or a type other than a regular file,
  \<^verbatim>\<open>load_rules\<close> returns 1 with an empty list and one error in the log, and no line is
  read: whatever bytes the file holds, the result is the same.
\<close>

theorem load_rules_permission_gate:
  assumes op: "sys_open env (config_file (config s)) = Inr fl"
    and st: "fstat fl = Inr st"
    and bad: "st_uid st \<noteq> 0 \<or> st_mode st AND S_IWOTH = S_IWOTH \<or> \<not> S_ISREG (st_mode st)"
  shows "fst (load_rules env s) = 1 \<and>
         fst (snd (load_rules env s)) = [] \<and>
         (\<exists>fmt. snd (snd (load_rules env s)) =
            s\<lparr>errors := 0, trace := trace s @ [Syslog LOG_ERR fmt [S (config_file (config s))]]\<rparr>) \<and>
         (\<forall>bytes. load_rules
            (env\<lparr>sys_open := (sys_open env)(config_file (config s) := Inr (fl\<lparr>contents := bytes\<rparr>))\<rparr>) s =
            load_rules env s)"
  using op st bad by (auto simp: load_rules_def Let_def syslog_def)

text \<open>
  A file owned by uid 1000 (mode 0100640), a world-writable file of root (mode
  0100666) and a directory of root (mode 040700), each holding a valid rule.
\<close>

theorem load_rules_permission_gate_witness:
  "fst (load_rules (toy_stat_env 1000 33184 (''uid=0'' @ [NL])) (toy_state 0)) = 1 \<and>
   fst (load_rules (toy_stat_env 0 33206 (''uid=0'' @ [NL])) (toy_state 0)) = 1 \<and>
   fst (load_rules (toy_stat_env 0 16832 (''uid=0'' @ [NL])) (toy_state 0)) = 1"
proof -
  let ?p = "config_file (config (toy_state 0))"
  have a: "sys_open (toy_stat_env uid m b) ?p = Inr ((toy_file b)\<lparr>fstat := Inr \<lparr>st_uid = uid, st_mode = m\<rparr>\<rparr>)"
    for uid m b by (simp add: toy_stat_env_def)
  have b: "fstat ((toy_file b)\<lparr>fstat := Inr \<lparr>st_uid = uid, st_mode = m\<rparr>\<rparr>) = Inr \<lparr>st_uid = uid, st_mode = m\<rparr>"
    for uid m b by simp
  have c1: "st_uid \<lparr>st_uid = 1000, st_mode = 33184\<rparr> \<noteq> 0 \<or>
            st_mode \<lparr>st_uid = 1000, st_mode = 33184\<rparr> AND S_IWOTH = S_IWOTH \<or>
            \<not> S_ISREG (st_mode \<lparr>st_uid = 1000, st_mode = 33184\<rparr>)"
    by simp
  have c2: "st_uid \<lparr>st_uid = 0, st_mode = 33206\<rparr> \<noteq> 0 \<or>
            st_mode \<lparr>st_uid = 0, st_mode = 33206\<rparr> AND S_IWOTH = S_IWOTH \<or>
            \<not> S_ISREG (st_mode \<lparr>st_uid = 0, st_mode = 33206\<rparr>)"
    by (simp add: S_IWOTH_def)
  have c3: "st_uid \<lparr>st_uid = 0, st_mode = 16832\<rparr> \<noteq> 0 \<or>
            st_mode \<lparr>st_uid = 0, st_mode = 16832\<rparr> AND S_IWOTH = S_IWOTH \<or>
            \<not> S_ISREG (st_mode \<lparr>st_uid = 0, st_mode = 16832\<rparr>)"
    by (simp add: S_ISREG_def S_IFMT_def S_IFREG_def S_IWOTH_def)
  show ?thesis
    using load_rules_permission_gate [OF a b c1] load_rules_permission_gate [OF a b c2]
      load_rules_permission_gate [OF a b c3]
    by simp
qed

text \<open>
  C6, as the claim states it, fails: a missing config file (\<^verbatim>\<open>ENOENT\<close>) and another
  open failure (errno 13, \<^verbatim>\<open>EACCES\<close>) are both logged at the priority \<^verbatim>\<open>LOG_ERR\<close>;
  the priorities do not differ.
\<close>

theorem open_failure_same_severity:
  "priorities (trace (snd (snd (load_rules ((toy_env [])\<lparr>sys_open := (\<lambda>p. Inl ENOENT)\<rparr>)
      (toy_state 0))))) = [LOG_ERR] \<and>
   priorities (trace (snd (snd (load_rules ((toy_env [])\<lparr>sys_open := (\<lambda>p. Inl 13)\<rparr>)
      (toy_state 0))))) = [LOG_ERR] \<and>
   priorities (trace (snd (snd (load_rules ((toy_env [])\<lparr>sys_open := (\<lambda>p. Inl ENOENT)\<rparr>)
      (toy_state 0))))) =
   priorities (trace (snd (snd (load_rules ((toy_env [])\<lparr>sys_open := (\<lambda>p. Inl 13)\<rparr>)
      (toy_state 0)))))"
  by (simp add: load_rules_def toy_defs syslog_def ENOENT_def)

text \<open>
  C6, amended. When opening the config file fails, \<^verbatim>\<open>load_rules\<close> returns 1 with an
  empty list for \<^verbatim>\<open>ENOENT\<close> and for every other errno, and logs one message at the
  priority \<^verbatim>\<open>LOG_ERR\<close> in both cases; the two cases differ in the text of the message
  only.
\<close>

theorem load_rules_open_failure:
  assumes "sys_open env (config_file (config s)) = Inl errno"
  shows "load_rules env s =
           (1, [],
            s\<lparr>errors := 0,
              trace := trace s @
                [if errno = ENOENT
                 then Syslog LOG_ERR ''Config file %s doesn't exist, skipping'' [S (config_file (config s))]
                 else Syslog LOG_ERR ''Error opening config file (%s)'' [E errno]]\<rparr>)"
  using assms by (simp add: load_rules_def Let_def syslog_def)

theorem load_rules_open_failure_witness:
  "load_rules ((toy_env [])\<lparr>sys_open := (\<lambda>p. Inl ENOENT)\<rparr>) (toy_state 0) =
     (1, [], (toy_state 0)\<lparr>trace := [Syslog LOG_ERR ''Config file %s doesn't exist, skipping''
                                 [S ''/etc/audit/filter.conf'']]\<rparr>) \<and>
   load_rules ((toy_env [])\<lparr>sys_open := (\<lambda>p. Inl 13)\<rparr>) (toy_state 0) =
     (1, [], (toy_state 0)\<lparr>trace := [Syslog LOG_ERR ''Error opening config file (%s)'' [E 13]]\<rparr>)"
  using load_rules_open_failure [of "(toy_env [])\<lparr>sys_open := (\<lambda>p. Inl ENOENT)\<rparr>" "toy_state 0" ENOENT]
    load_rules_open_failure [of "(toy_env [])\<lparr>sys_open := (\<lambda>p. Inl 13)\<rparr>" "toy_state 0" 13]
  by (simp add: toy_defs ENOENT_def)

subsection \<open>Parsing a line\<close>

text \<open>
  C10. Only spaces are skipped at the start of a line. A line that starts with a tab
  is left whole by the skipping and is not taken for an empty line or a comment,
  whatever follows the tab. When the allocations succeed, the whole line, the tab
  included, is given to the engine; if the engine refuses it, \<^verbatim>\<open>errors\<close> is incremented
  (and \<^verbatim>\<open>load_rules\<close> returns \<^verbatim>\<open>errors\<close>), otherwise the line becomes a rule.
\<close>

theorem parse_line_tab:
  "skip_spaces (TAB # rest) = TAB # rest \<and>
   \<not> empty_or_comment (skip_spaces (TAB # rest)) \<and>
   (auparse_init env = Some au0 \<and> malloc_ok env lno \<and> strdup_ok env lno \<and>
    ausearch_add_expression env au0 (TAB # rest) = (rc, err, au') \<longrightarrow>
      parse_line env (TAB # rest) lno s =
        (if rc \<noteq> 0
         then (None,
               s\<lparr>errors := errors s + 1,
                 trace := trace s @ [Syslog LOG_ERR ''Invalid expression: %s (%s)'' [S (TAB # rest), S err]]\<rparr>)
         else (Some \<lparr>expr = TAB # rest, lineno = lno\<rparr>, s)))"
  by (simp add: skip_spaces_def empty_or_comment_def TAB_def parse_line_def syslog_def)

text \<open>
  A line made of a tab and \<open># a comment\<close>: the engine gets it and refuses it, and a
  file with this one line fails to load.
\<close>

theorem parse_line_tab_witness:
  "parse_line (toy_env []) (TAB # ''# a comment'') 3 (toy_state 0) =
     (None, (toy_state 0)\<lparr>errors := 1,
        trace := [Syslog LOG_ERR ''Invalid expression: %s (%s)'' [S (TAB # ''# a comment''), S ''syntax error'']]\<rparr>) \<and>
   load_rules (toy_env (TAB # ''# a comment'' @ [NL])) (toy_state 0) =
     (1, [], (toy_state 0)\<lparr>errors := 1,
        trace := [Syslog LOG_ERR ''Invalid expression: %s (%s)'' [S (TAB # ''# a comment''), S ''syntax error'']]\<rparr>)"
proof -
  have add: "ausearch_add_expression (toy_env []) \<lparr>exprs = [], recs = [], cur = 0\<rparr> (TAB # ''# a comment'') =
      (- 1, ''syntax error'', \<lparr>exprs = [], recs = [], cur = 0\<rparr>)"
    by (simp add: toy_defs TAB_def)
  have init: "auparse_init (toy_env []) = Some \<lparr>exprs = [], recs = [], cur = 0\<rparr>"
    and m: "malloc_ok (toy_env []) 3" "strdup_ok (toy_env []) 3"
    by (simp_all add: toy_defs)
  have p: "parse_line (toy_env []) (TAB # ''# a comment'') 3 (toy_state 0) =
     (None, (toy_state 0)\<lparr>errors := 1,
        trace := [Syslog LOG_ERR ''Invalid expression: %s (%s)'' [S (TAB # ''# a comment''), S ''syntax error'']]\<rparr>)"
    using parse_line_tab [of "''# a comment''" "toy_env []" "\<lparr>exprs = [], recs = [], cur = 0\<rparr>" 3 "- 1"
        "''syntax error''" "\<lparr>exprs = [], recs = [], cur = 0\<rparr>" "toy_state 0"] add init m
    by (simp add: toy_defs)
  have l: "load_rules (toy_env (TAB # ''# a comment'' @ [NL])) (toy_state 0) =
     (1, [], (toy_state 0)\<lparr>errors := 1,
        trace := [Syslog LOG_ERR ''Invalid expression: %s (%s)'' [S (TAB # ''# a comment''), S ''syntax error'']]\<rparr>)"
    by code_simp
  from p l show ?thesis by simp
qed

text \<open>
  C9. When \<^verbatim>\<open>malloc\<close> or \<^verbatim>\<open>strdup\<close> fails on a line that is neither empty nor a
  comment, \<^verbatim>\<open>parse_line\<close> returns NULL and leaves the state as it was: \<^verbatim>\<open>errors\<close> is
  not incremented and nothing is logged. The loop of \<^verbatim>\<open>load_rules\<close> then goes on with
  the rest of the file, the list and the error count unchanged, so the load can return 0
  without a rule for that line.
\<close>

theorem parse_line_alloc_failure:
  assumes init: "auparse_init env = Some au0"
    and line: "\<not> empty_or_comment (skip_spaces line)"
    and fail: "\<not> malloc_ok env n \<or> \<not> strdup_ok env n"
  shows "(\<forall>s. parse_line env line n s = (None, s)) \<and>
         (get_line 1024 f lno (config_file (config s)) (trace s) = (Some line, f', lno', tr') \<and>
          n = lno' + 1 \<longrightarrow>
            load_loop env f lno rules s = load_loop env f' n rules (s\<lparr>trace := tr'\<rparr>))"
proof -
  have p: "parse_line env line n s = (None, s)" for s
    using init line fail by (auto simp: parse_line_def Let_def)
  show ?thesis
  proof (intro conjI allI impI)
    fix s
    show "parse_line env line n s = (None, s)" by (rule p)
  next
    assume "get_line 1024 f lno (config_file (config s)) (trace s) = (Some line, f', lno', tr') \<and>
      n = lno' + 1"
    then show "load_loop env f lno rules s = load_loop env f' n rules (s\<lparr>trace := tr'\<rparr>)"
      using p [of "s\<lparr>trace := tr'\<rparr>"] by (simp add: load_loop.simps [of env f lno rules s])
  qed
qed

text \<open>
  Two valid lines, with \<^verbatim>\<open>malloc\<close> failing on line 2: the load returns 0, logs nothing
  and yields the rule of line 1 only, although the engine accepts line 2.
\<close>

theorem parse_line_alloc_failure_witness:
  "parse_line ((toy_env [])\<lparr>malloc_ok := (\<lambda>n. n \<noteq> 2)\<rparr>) ''uid=0'' 2 (toy_state 0) = (None, toy_state 0) \<and>
   fst (ausearch_add_expression (toy_env []) \<lparr>exprs = [], recs = [], cur = 0\<rparr> ''uid=0'') = 0 \<and>
   load_rules ((toy_env (''arch=b64'' @ [NL] @ ''uid=0'' @ [NL]))\<lparr>malloc_ok := (\<lambda>n. n \<noteq> 2)\<rparr>) (toy_state 0) =
     (0, [\<lparr>expr = ''arch=b64'', lineno = 1\<rparr>], toy_state 0)"
proof -
  let ?env = "(toy_env [])\<lparr>malloc_ok := (\<lambda>n. n \<noteq> 2)\<rparr>"
  have init: "auparse_init ?env = Some \<lparr>exprs = [], recs = [], cur = 0\<rparr>"
    by (simp add: toy_defs)
  have line: "\<not> empty_or_comment (skip_spaces ''uid=0'')"
    by (simp add: empty_or_comment_def skip_spaces_def)
  have fail: "\<not> malloc_ok ?env 2 \<or> \<not> strdup_ok ?env 2"
    by simp
  have l: "load_rules ((toy_env (''arch=b64'' @ [NL] @ ''uid=0'' @ [NL]))\<lparr>malloc_ok := (\<lambda>n. n \<noteq> 2)\<rparr>) (toy_state 0) =
     (0, [\<lparr>expr = ''arch=b64'', lineno = 1\<rparr>], toy_state 0)"
    by code_simp
  from parse_line_alloc_failure [OF init line fail] l show ?thesis
    by (simp add: toy_defs)
qed

subsection \<open>Reading lines\<close>

lemma NL_neq_NUL [simp]: "NL \<noteq> NUL" "NUL \<noteq> NL"
  by (simp_all add: NL_def NUL_def)

lemma c_str_id: "NUL \<notin> set buf \<Longrightarrow> c_str buf = buf"
  by (auto simp: c_str_def takeWhile_eq_all_conv)

lemma set_c_str: "set (c_str buf) \<subseteq> set buf"
  by (auto simp: c_str_def dest: set_takeWhileD)

lemma takeWhile_to_newline:
  "NL \<notin> set l \<Longrightarrow> takeWhile (\<lambda>c. c \<noteq> NL) (l @ NL # rest) = l"
  by (induction l) auto

lemma line_end_newline: "NL \<notin> set l \<Longrightarrow> line_end (l @ NL # rest) = Suc (length l)"
  by (simp add: line_end_def takeWhile_to_newline)

lemma fgets_whole_line:
  assumes "2 \<le> sz" "NL \<notin> set l" "length l < sz - 1"
  shows "fgets_unlocked sz (l @ NL # rest) = Some (l @ [NL], rest)"
proof -
  have "min (sz - 1) (Suc (length l)) = Suc (length l)"
    using assms(3) by simp
  then show ?thesis
    using assms by (simp add: fgets_unlocked_def line_end_newline Let_def)
qed

lemma fgets_fragment:
  assumes "2 \<le> sz" "NL \<notin> set l" "sz - 1 \<le> length l"
  shows "fgets_unlocked sz (l @ NL # rest) = Some (take (sz - 1) l, drop (sz - 1) l @ NL # rest)"
  using assms by (simp add: fgets_unlocked_def line_end_newline Let_def min_def)

lemma get_line_loop_short:
  assumes "2 \<le> sz" "NL \<notin> set l" "NUL \<notin> set l" "length l < sz - 1"
  shows "get_line_loop sz False (l @ NL # rest) lno fname tr = (Some l, rest, lno, tr)"
proof -
  have "c_str (l @ [NL]) = l @ [NL]"
    using assms by (simp add: c_str_id)
  then show ?thesis
    using assms
    by (simp add: get_line_loop.simps [of sz False "l @ NL # rest"] fgets_whole_line
        takeWhile_to_newline [of l "[]"])
qed

lemma get_line_loop_skip_rest:
  assumes "2 \<le> sz" "NL \<notin> set l" "NUL \<notin> set l"
  shows "get_line_loop sz True (l @ NL # rest) lno fname tr =
         get_line_loop sz False rest (lno + 1) fname tr"
  using assms(2,3)
proof (induction l rule: length_induct)
  case (1 l)
  show ?case
  proof (cases "length l < sz - 1")
    case True
    have "c_str (l @ [NL]) = l @ [NL]"
      using "1.prems" by (simp add: c_str_id)
    then show ?thesis
      using True "1.prems" assms(1)
      by (simp add: get_line_loop.simps [of sz True "l @ NL # rest"] fgets_whole_line)
  next
    case False
    then have long: "sz - 1 \<le> length l" by simp
    let ?k = "sz - 1"
    have ne: "take ?k l \<noteq> []"
      using long assms(1) by (cases l) auto
    have nonl: "NL \<notin> set (c_str (take ?k l))"
      using "1.prems"(1) set_c_str [of "take ?k l"] by (auto dest: in_set_takeD)
    have shorter: "length (drop ?k l) < length l"
      using long assms(1) by (cases l) auto
    have "NL \<notin> set (drop ?k l)" "NUL \<notin> set (drop ?k l)"
      using "1.prems" by (auto dest: in_set_dropD)
    with "1.IH" shorter
    have IH: "get_line_loop sz True (drop ?k l @ NL # rest) lno fname tr =
              get_line_loop sz False rest (lno + 1) fname tr"
      by blast
    have "get_line_loop sz True (l @ NL # rest) lno fname tr =
          get_line_loop sz True (drop ?k l @ NL # rest) lno fname tr"
      using ne nonl
      by (simp add: get_line_loop.simps [of sz True "l @ NL # rest"]
          fgets_fragment [OF assms(1) "1.prems"(1) long])
    with IH show ?thesis by simp
  qed
qed

lemma get_line_long:
  assumes "2 \<le> sz" "NL \<notin> set l" "NUL \<notin> set l" "sz - 1 \<le> length l"
  shows "get_line sz (l @ NL # rest) lno fname tr =
         get_line sz rest (lno + 1) fname
           (tr @ [Syslog LOG_WARNING ''Skipping line %d in %s: too long'' [I lno, S fname]])"
proof -
  let ?k = "sz - 1"
  let ?tr = "tr @ [Syslog LOG_WARNING ''Skipping line %d in %s: too long'' [I lno, S fname]]"
  have ne: "take ?k l \<noteq> []"
    using assms(1,4) by (cases l) auto
  have nonl: "NL \<notin> set (c_str (take ?k l))"
    using assms(2) set_c_str [of "take ?k l"] by (auto dest: in_set_takeD)
  have "get_line_loop sz False (l @ NL # rest) lno fname tr =
        get_line_loop sz True (drop ?k l @ NL # rest) lno fname ?tr"
    using ne nonl
    by (simp add: get_line_loop.simps [of sz False "l @ NL # rest"]
        fgets_fragment [OF assms(1,2,4)])
  also have "\<dots> = get_line_loop sz False rest (lno + 1) fname ?tr"
    using assms(2,3) by (intro get_line_loop_skip_rest [OF assms(1)]) (auto dest: in_set_dropD)
  finally show ?thesis by (simp add: get_line_def)
qed

lemma get_line_loop_skip_rest_any:
  assumes "2 \<le> sz" "NL \<notin> set l"
  shows "\<exists>tl0 n. get_line_loop sz True (l @ NL # rest) lno fname tr =
                  get_line_loop sz tl0 rest n fname tr"
  using assms(2)
proof (induction l rule: length_induct)
  case (1 l)
  show ?case
  proof (cases "length l < sz - 1")
    case True
    have f: "fgets_unlocked sz (l @ NL # rest) = Some (l @ [NL], rest)"
      using True "1.prems" assms(1) by (simp add: fgets_whole_line)
    show ?thesis
    proof (cases "NL \<in> set (c_str (l @ [NL]))")
      case True
      then have "get_line_loop sz True (l @ NL # rest) lno fname tr =
                 get_line_loop sz False rest (lno + 1) fname tr"
        by (simp add: get_line_loop.simps [of sz True "l @ NL # rest"] f)
      then show ?thesis by blast
    next
      case False
      then have "get_line_loop sz True (l @ NL # rest) lno fname tr =
                 get_line_loop sz True rest lno fname tr"
        by (simp add: get_line_loop.simps [of sz True "l @ NL # rest"] f)
      then show ?thesis by blast
    qed
  next
    case False
    then have long: "sz - 1 \<le> length l" by simp
    let ?k = "sz - 1"
    have ne: "take ?k l \<noteq> []"
      using long assms(1) by (cases l) auto
    have nonl: "NL \<notin> set (c_str (take ?k l))"
      using "1.prems"(1) set_c_str [of "take ?k l"] by (auto dest: in_set_takeD)
    have shorter: "length (drop ?k l) < length l"
      using long assms(1) by (cases l) auto
    have "NL \<notin> set (drop ?k l)"
      using "1.prems" by (auto dest: in_set_dropD)
    with "1.IH" shorter
    obtain tl0 n where IH: "get_line_loop sz True (drop ?k l @ NL # rest) lno fname tr =
              get_line_loop sz tl0 rest n fname tr"
      by blast
    have "get_line_loop sz True (l @ NL # rest) lno fname tr =
          get_line_loop sz True (drop ?k l @ NL # rest) lno fname tr"
      using ne nonl
      by (simp add: get_line_loop.simps [of sz True "l @ NL # rest"]
          fgets_fragment [OF assms(1) "1.prems"(1) long])
    with IH show ?thesis by auto
  qed
qed

lemma get_line_long_any:
  assumes "2 \<le> sz" "NL \<notin> set l" "sz - 1 \<le> length l"
  shows "\<exists>tl0 n. get_line sz (l @ NL # rest) lno fname tr =
           get_line_loop sz tl0 rest n fname
             (tr @ [Syslog LOG_WARNING ''Skipping line %d in %s: too long'' [I lno, S fname]])"
proof -
  let ?k = "sz - 1"
  let ?tr = "tr @ [Syslog LOG_WARNING ''Skipping line %d in %s: too long'' [I lno, S fname]]"
  have ne: "take ?k l \<noteq> []"
    using assms(1,3) by (cases l) auto
  have nonl: "NL \<notin> set (c_str (take ?k l))"
    using assms(2) set_c_str [of "take ?k l"] by (auto dest: in_set_takeD)
  have "NL \<notin> set (drop ?k l)"
    using assms(2) by (auto dest: in_set_dropD)
  from get_line_loop_skip_rest_any [OF assms(1) this, of rest lno fname ?tr]
  obtain tl0 n where s: "get_line_loop sz True (drop ?k l @ NL # rest) lno fname ?tr =
      get_line_loop sz tl0 rest n fname ?tr"
    by blast
  have "get_line_loop sz False (l @ NL # rest) lno fname tr =
        get_line_loop sz True (drop ?k l @ NL # rest) lno fname ?tr"
    using ne nonl
    by (simp add: get_line_loop.simps [of sz False "l @ NL # rest"]
        fgets_fragment [OF assms(1,2,3)])
  with s show ?thesis by (auto simp: get_line_def)
qed

lemma get_line_short:
  assumes "2 \<le> sz" "NL \<notin> set l" "NUL \<notin> set l" "length l < sz - 1"
  shows "get_line sz (l @ NL # rest) lno fname tr = (Some l, rest, lno, tr)"
  using get_line_loop_short [OF assms] by (simp add: get_line_def)

lemma get_line_loop_pure:
  "(case get_line_loop sz tl0 f lno fname tr of (r, f', n', tr') \<Rightarrow> (r, f', n')) =
   (case get_line_loop sz tl0 f lno fname2 tr2 of (r, f', n', tr') \<Rightarrow> (r, f', n'))"
proof (induction sz tl0 f lno fname tr arbitrary: tr2 rule: get_line_loop.induct)
  case (1 sz too_long f lno fname tr)
  note u1 = get_line_loop.simps [of sz too_long f lno fname tr]
  note u2 = get_line_loop.simps [of sz too_long f lno fname2 tr2]
  show ?case
  proof (cases "fgets_unlocked sz f")
    case None
    then show ?thesis by (simp add: u1 u2)
  next
    case (Some p)
    obtain buf f1 where p: "p = (buf, f1)" by (cases p)
    show ?thesis
    proof (cases "buf = []")
      case True
      with Some p show ?thesis by (simp add: u1 u2)
    next
      case False
      show ?thesis
      proof (cases "NL \<in> set (c_str buf)")
        case nl: True
        show ?thesis
        proof (cases too_long)
          case True
          have "get_line_loop sz too_long f lno fname tr = get_line_loop sz False f1 (lno + 1) fname tr"
            "get_line_loop sz too_long f lno fname2 tr2 = get_line_loop sz False f1 (lno + 1) fname2 tr2"
            unfolding u1 u2 using Some p False nl True by simp_all
          then show ?thesis
            using "1.IH"(1) [OF Some p [symmetric] False nl, of tr2] True by simp
        next
          case False
          show ?thesis
            unfolding u1 u2 using Some p \<open>buf \<noteq> []\<close> nl False by simp
        qed
      next
        case nonl: False
        let ?w = "\<lambda>fn. [Syslog LOG_WARNING ''Skipping line %d in %s: too long'' [I lno, S fn]]"
        let ?t1 = "if \<not> too_long then tr @ ?w fname else tr"
        let ?t2 = "if \<not> too_long then tr2 @ ?w fname2 else tr2"
        have "get_line_loop sz too_long f lno fname tr = get_line_loop sz True f1 lno fname ?t1"
          "get_line_loop sz too_long f lno fname2 tr2 = get_line_loop sz True f1 lno fname2 ?t2"
          unfolding u1 u2 using Some p False nonl by simp_all
        then show ?thesis
          using "1.IH"(2) [OF Some p [symmetric] False nonl, of ?t2] by simp
      qed
    qed
  qed
qed

lemma get_line_pure:
  assumes "get_line sz f lno fname tr = (r, f', n', tr')"
  shows "\<exists>tr2'. get_line sz f lno fname2 tr2 = (r, f', n', tr2')"
proof -
  obtain a b c d where e: "get_line_loop sz False f lno fname2 tr2 = (a, b, c, d)"
    by (cases "get_line_loop sz False f lno fname2 tr2")
  from get_line_loop_pure [of sz False f lno fname tr fname2 tr2] assms e
  show ?thesis by (simp add: get_line_def)
qed

lemma read_lines_short:
  assumes "NL \<notin> set l" "NUL \<notin> set l" "length l < 1023"
  shows "read_lines (l @ NL # rest) lno = (l, lno + 1) # read_lines rest (lno + 1)"
  using assms
  by (simp add: read_lines.simps [of "l @ NL # rest" lno] get_line_short)

lemma read_lines_long:
  assumes "NL \<notin> set l" "NUL \<notin> set l" "1023 \<le> length l"
  shows "read_lines (l @ NL # rest) lno = read_lines rest (lno + 1)"
proof -
  let ?w = "[Syslog LOG_WARNING ''Skipping line %d in %s: too long'' [I lno, S []]]"
  have g: "get_line 1024 (l @ NL # rest) lno [] [] = get_line 1024 rest (lno + 1) [] ?w"
    using get_line_long [of 1024 l rest lno "[]" "[]"] assms by simp
  obtain r f' n' tr' where e: "get_line 1024 rest (lno + 1) [] ?w = (r, f', n', tr')"
    by (cases "get_line 1024 rest (lno + 1) [] ?w")
  from get_line_pure [OF e, of "[]" "[]"] obtain tr2 where
    e2: "get_line 1024 rest (lno + 1) [] [] = (r, f', n', tr2)" by blast
  show ?thesis
    by (cases r)
      (simp_all add: read_lines.simps [of "l @ NL # rest" lno] read_lines.simps [of rest "lno + 1"] g e e2)
qed

lemma load_loop_long:
  assumes "NL \<notin> set l" "NUL \<notin> set l" "1023 \<le> length l"
  shows "load_loop env (l @ NL # rest) lno rules s =
         load_loop env rest (lno + 1) rules
           (syslog LOG_WARNING ''Skipping line %d in %s: too long'' [I lno, S (config_file (config s))] s)"
proof -
  let ?s = "syslog LOG_WARNING ''Skipping line %d in %s: too long'' [I lno, S (config_file (config s))] s"
  have g: "get_line 1024 (l @ NL # rest) lno (config_file (config s)) (trace s) =
           get_line 1024 rest (lno + 1) (config_file (config ?s)) (trace ?s)"
    using get_line_long [of 1024 l rest lno "config_file (config s)" "trace s"] assms
    by (simp add: syslog_def)
  have u: "?s\<lparr>trace := t\<rparr> = s\<lparr>trace := t\<rparr>" for t
    by (simp add: syslog_def)
  obtain r f' n' tr' where
    e: "get_line 1024 rest (lno + 1) (config_file (config ?s)) (trace ?s) = (r, f', n', tr')"
    by (cases "get_line 1024 rest (lno + 1) (config_file (config ?s)) (trace ?s)")
  show ?thesis
    by (cases r)
      (simp_all add: load_loop.simps [of env "l @ NL # rest" lno rules s]
        load_loop.simps [of env rest "lno + 1" rules ?s] g e u)
qed

text \<open>
  On a file of lines without NUL bytes, each ended by a newline, the lines read are
  the lines of fewer than 1023 bytes, under their numbers in the file.
\<close>

lemma read_lines_Nil: "read_lines [] n = []"
  by (simp add: read_lines.simps [of "[]" n] get_line_def get_line_loop.simps [of 1024 False "[]"]
      fgets_unlocked_def)

lemma read_lines_text:
  assumes "\<forall>l \<in> set ls. NL \<notin> set l \<and> NUL \<notin> set l"
  shows "read_lines (concat (map (\<lambda>l. l @ [NL]) ls)) n =
         filter (\<lambda>(l, i). length l < 1023) (numbered n ls)"
  using assms
proof (induction ls arbitrary: n)
  case Nil
  show ?case by (simp add: read_lines_Nil)
next
  case (Cons l ls)
  then have l: "NL \<notin> set l" "NUL \<notin> set l" by simp_all
  show ?case
  proof (cases "length l < 1023")
    case True
    with Cons l show ?thesis by (simp add: read_lines_short)
  next
    case False
    with Cons l show ?thesis by (simp add: read_lines_long)
  qed
qed

text \<open>
  C7. Let a line \<open>l\<close> of the config file (no newline in it) be followed by its
  newline and by the bytes \<open>rest\<close>, and let \<open>l\<close> not fit the buffer with its newline
  (\<open>size - 1 \<le> length l\<close>; for the buffer of \<^verbatim>\<open>load_rules\<close>, 1023 bytes or more, so
  every line longer than 1024 bytes). Then \<^verbatim>\<open>get_line\<close> on \<open>l\<close>, newline, \<open>rest\<close>
  logs one warning and goes on reading at \<open>rest\<close>: all the buffer fills of the line are
  discarded up to and including the one that ends at the newline, none is returned as
  a line or joined to what follows, and the warning is logged once however long \<open>l\<close>
  is. When \<open>l\<close> holds no NUL byte, \<^verbatim>\<open>get_line\<close> does from there what it does on
  \<open>rest\<close> alone with the line number one higher; in \<^verbatim>\<open>load_rules\<close> the loop then goes
  on from \<open>rest\<close> with the same rule list, and the lines read are those of \<open>rest\<close>.
\<close>

theorem long_line_skipped:
  assumes "NL \<notin> set l"
  shows "(2 \<le> sz \<and> sz - 1 \<le> length l \<longrightarrow>
            (\<exists>tl0 n. get_line sz (l @ NL # rest) lno fname tr =
               get_line_loop sz tl0 rest n fname
                 (tr @ [Syslog LOG_WARNING ''Skipping line %d in %s: too long'' [I lno, S fname]]))) \<and>
         (NUL \<notin> set l \<and> 2 \<le> sz \<and> sz - 1 \<le> length l \<longrightarrow>
            get_line sz (l @ NL # rest) lno fname tr =
              get_line sz rest (lno + 1) fname
                (tr @ [Syslog LOG_WARNING ''Skipping line %d in %s: too long'' [I lno, S fname]])) \<and>
         (NUL \<notin> set l \<and> 1023 \<le> length l \<longrightarrow>
            load_loop env (l @ NL # rest) lno rules s =
              load_loop env rest (lno + 1) rules
                (syslog LOG_WARNING ''Skipping line %d in %s: too long''
                   [I lno, S (config_file (config s))] s) \<and>
            read_lines (l @ NL # rest) lno = read_lines rest (lno + 1))"
  using assms by (simp add: get_line_long get_line_long_any load_loop_long read_lines_long)

lemma long_line_facts:
  "NL \<notin> set long_line" "NUL \<notin> set long_line" "length long_line = 1100"
  by (simp_all add: long_line_def NL_def NUL_def)

text \<open>
  A line of 1100 bytes followed by the line \<open>uid=0\<close>: one warning, and the only rule
  loaded is \<open>uid=0\<close>, as line 2.
\<close>

theorem long_line_skipped_witness:
  "get_line 1024 (long_line @ NL # ''uid=0'' @ [NL]) 0 ''cfg'' [] =
     (Some ''uid=0'', [], 1, [Syslog LOG_WARNING ''Skipping line %d in %s: too long'' [I 0, S ''cfg'']]) \<and>
   read_lines (long_line @ NL # ''uid=0'' @ [NL]) 0 = [(''uid=0'', 2)] \<and>
   load_rules (toy_env (long_line @ NL # ''uid=0'' @ [NL])) (toy_state 0) =
     (0, [\<lparr>expr = ''uid=0'', lineno = 2\<rparr>],
      (toy_state 0)\<lparr>trace := [Syslog LOG_WARNING ''Skipping line %d in %s: too long''
                                 [I 0, S ''/etc/audit/filter.conf'']]\<rparr>)"
proof -
  let ?w = "\<lambda>p. [Syslog LOG_WARNING ''Skipping line %d in %s: too long'' [I 0, S p]]"
  note t = long_line_skipped [OF long_line_facts(1)]
  have a: "get_line 1024 (''uid=0'' @ [NL]) 1 ''cfg'' (?w ''cfg'') = (Some ''uid=0'', [], 1, ?w ''cfg'')"
    by code_simp
  have b: "read_lines (''uid=0'' @ [NL]) 1 = [(''uid=0'', 2)]"
    by code_simp
  have c: "load_loop (toy_env bytes) (''uid=0'' @ [NL]) 1 []
             ((toy_state 0)\<lparr>trace := ?w ''/etc/audit/filter.conf''\<rparr>) =
           ([\<lparr>expr = ''uid=0'', lineno = 2\<rparr>], (toy_state 0)\<lparr>trace := ?w ''/etc/audit/filter.conf''\<rparr>)"
    for bytes
    by code_simp
  have d: "load_rules (toy_env (long_line @ NL # ''uid=0'' @ [NL])) (toy_state 0) =
      (case load_loop (toy_env (long_line @ NL # ''uid=0'' @ [NL])) (long_line @ NL # ''uid=0'' @ [NL]) 0 []
              (toy_state 0) of (rules, s') \<Rightarrow> (errors s', rules, s'))"
    by (simp add: load_rules_def toy_defs S_IWOTH_def S_ISREG_def S_IFMT_def S_IFREG_def)
  have e: "syslog LOG_WARNING ''Skipping line %d in %s: too long''
             [I 0, S (config_file (config (toy_state 0)))] (toy_state 0) =
           (toy_state 0)\<lparr>trace := ?w ''/etc/audit/filter.conf''\<rparr>"
    by (simp add: syslog_def toy_defs)
  from t [where sz = 1024 and rest = "''uid=0'' @ [NL]" and lno = 0 and fname = "''cfg''" and tr = "[]"
      and env = "toy_env []" and rules = "[]" and s = "toy_state 0"] a
  have 1: "get_line 1024 (long_line @ NL # ''uid=0'' @ [NL]) 0 ''cfg'' [] =
     (Some ''uid=0'', [], 1, ?w ''cfg'')"
    by (simp add: long_line_facts)
  from t [where sz = 1024 and rest = "''uid=0'' @ [NL]" and lno = 0 and fname = "''cfg''" and tr = "[]"
      and env = "toy_env (long_line @ NL # ''uid=0'' @ [NL])" and rules = "[]" and s = "toy_state 0"] b c e
  have 2: "read_lines (long_line @ NL # ''uid=0'' @ [NL]) 0 = [(''uid=0'', 2)]"
    and 3: "load_loop (toy_env (long_line @ NL # ''uid=0'' @ [NL])) (long_line @ NL # ''uid=0'' @ [NL]) 0 []
              (toy_state 0) =
            ([\<lparr>expr = ''uid=0'', lineno = 2\<rparr>], (toy_state 0)\<lparr>trace := ?w ''/etc/audit/filter.conf''\<rparr>)"
    by (simp_all add: long_line_facts)
  from 1 2 3 d show ?thesis
    by (simp add: toy_defs)
qed

subsection \<open>Loading the rules: the lines\<close>

lemma parse_line_result:
  "fst (parse_line env line n s) = line_rule env (line, n) \<and>
   errors (snd (parse_line env line n s)) = errors s + (if rejected env (line, n) then 1 else 0) \<and>
   (snd (parse_line env line n s))\<lparr>errors := e, trace := t\<rparr> = s\<lparr>errors := e, trace := t\<rparr>"
  by (cases "ausearch_add_expression env (the (auparse_init env)) (skip_spaces line)")
     (auto simp: parse_line_def line_rule_def rejected_def syslog_def Let_def split: option.splits)

lemma load_loop_result:
  "fst (load_loop env f lno rules s) = rules @ List.map_filter (line_rule env) (read_lines f lno) \<and>
   errors (snd (load_loop env f lno rules s)) =
     errors s + int (length (filter (rejected env) (read_lines f lno))) \<and>
   (snd (load_loop env f lno rules s))\<lparr>errors := e, trace := t\<rparr> = s\<lparr>errors := e, trace := t\<rparr>"
proof (induction env f lno rules s rule: load_loop.induct)
  case (1 env f lno rules s)
  obtain r f' lno' tr' where g: "get_line 1024 f lno (config_file (config s)) (trace s) = (r, f', lno', tr')"
    by (cases "get_line 1024 f lno (config_file (config s)) (trace s)")
  from get_line_pure [OF g] obtain tr0 where g0: "get_line 1024 f lno [] [] = (r, f', lno', tr0)"
    by blast
  show ?case
  proof (cases r)
    case None
    with g g0 show ?thesis
      by (simp add: load_loop.simps [of env f lno rules s] read_lines.simps [of f lno] List.map_filter_simps)
  next
    case (Some line)
    let ?s1 = "s\<lparr>trace := tr'\<rparr>"
    let ?n = "lno' + 1"
    obtain pr s2 where p: "parse_line env line ?n ?s1 = (pr, s2)"
      by (cases "parse_line env line ?n ?s1")
    from parse_line_result [where env = env and line = line and n = "?n" and s = "?s1" and e = e and t = t] p
    have pr: "pr = line_rule env (line, ?n)"
      and e2: "errors s2 = errors s + (if rejected env (line, ?n) then 1 else 0)"
      and fr2: "s2\<lparr>errors := e, trace := t\<rparr> = s\<lparr>errors := e, trace := t\<rparr>"
      by simp_all
    have rl: "read_lines f lno = (line, ?n) # read_lines f' ?n"
      using g0 Some by (simp add: read_lines.simps [of f lno])
    show ?thesis
    proof (cases pr)
      case None
      have step: "load_loop env f lno rules s = load_loop env f' ?n rules s2"
        using g Some p None by (simp add: load_loop.simps [of env f lno rules s])
      have lr: "line_rule env (line, ?n) = None"
        using pr None by simp
      from "1.IH"(1) [OF g [symmetric] \<open>r = Some line\<close> refl refl p [symmetric] None]
      show ?thesis
        using lr rl e2 fr2 by (simp add: step List.map_filter_simps)
    next
      case (Some rule)
      have step: "load_loop env f lno rules s = load_loop env f' ?n (append_rule rules rule) s2"
        using g \<open>r = Some line\<close> p Some by (simp add: load_loop.simps [of env f lno rules s])
      have lr: "line_rule env (line, ?n) = Some rule"
        using pr Some by simp
      from "1.IH"(2) [OF g [symmetric] \<open>r = Some line\<close> refl refl p [symmetric] Some]
      show ?thesis
        using lr rl e2 fr2 by (simp add: step List.map_filter_simps append_rule_def)
    qed
  qed
qed

lemma load_rules_gate_failed:
  assumes "gate_failed env (config_file (config s))"
  shows "fst (load_rules env s) = 1 \<and> errors (snd (snd (load_rules env s))) = 0"
  using assms
  by (auto simp: gate_failed_def load_rules_def Let_def syslog_def split: sum.splits)

lemma load_rules_gate_passed:
  assumes "\<not> gate_failed env (config_file (config s))"
  shows "fst (load_rules env s) = errors (snd (snd (load_rules env s))) \<and>
         fst (snd (load_rules env s)) =
           List.map_filter (line_rule env) (config_lines env (config_file (config s))) \<and>
         errors (snd (snd (load_rules env s))) =
           int (length (filter (rejected env) (config_lines env (config_file (config s)))))"
proof -
  let ?path = "config_file (config s)"
  from assms obtain fl st where fl: "sys_open env ?path = Inr fl" and st: "fstat fl = Inr st"
    and ok: "st_uid st = 0" "st_mode st AND S_IWOTH \<noteq> S_IWOTH" "S_ISREG (st_mode st)"
      "fdopen_errno fl = None"
    by (auto simp: gate_failed_def split: sum.splits)
  let ?r = "load_loop env (contents fl) 0 [] (s\<lparr>errors := 0\<rparr>)"
  have l: "load_rules env s = (errors (snd ?r), fst ?r, snd ?r)"
    using fl st ok by (simp add: load_rules_def Let_def split_beta)
  from load_loop_result [of env "contents fl" 0 "[]" "s\<lparr>errors := 0\<rparr>"]
  show ?thesis
    using fl by (simp add: l config_lines_def)
qed

text \<open>
  C5. When the steps before reading succeed, the list that \<^verbatim>\<open>load_rules\<close> builds holds
  the rules of the accepted lines among all the lines read, in order, and \<^verbatim>\<open>errors\<close>
  ends as the number of lines among them that the engine rejected; the return value is
  then \<^verbatim>\<open>errors\<close>. A rejected line gives no rule. Where the loop reads a line that the
  engine rejects, \<^verbatim>\<open>parse_line\<close> returns NULL with \<^verbatim>\<open>errors\<close> one higher, and the
  loop goes on with the bytes after that line and the same list, to the end of the
  file. In every case \<^verbatim>\<open>load_rules\<close> returns non-zero exactly when the final
  \<^verbatim>\<open>errors\<close> is not 0 or one of the steps before reading failed.
\<close>

theorem load_rules_error_count:
  "(\<not> gate_failed env (config_file (config s)) \<longrightarrow>
      fst (snd (load_rules env s)) =
        List.map_filter (line_rule env) (config_lines env (config_file (config s))) \<and>
      errors (snd (snd (load_rules env s))) =
        int (length (filter (rejected env) (config_lines env (config_file (config s))))) \<and>
      fst (load_rules env s) = errors (snd (snd (load_rules env s)))) \<and>
   (\<forall>x. rejected env x \<longrightarrow> line_rule env x = None) \<and>
   (get_line 1024 f lno (config_file (config t)) (trace t) = (Some line, f', lno', tr') \<and>
    rejected env (line, lno' + 1) \<longrightarrow>
      fst (parse_line env line (lno' + 1) (t\<lparr>trace := tr'\<rparr>)) = None \<and>
      errors (snd (parse_line env line (lno' + 1) (t\<lparr>trace := tr'\<rparr>))) = errors t + 1 \<and>
      load_loop env f lno rules t =
        load_loop env f' (lno' + 1) rules (snd (parse_line env line (lno' + 1) (t\<lparr>trace := tr'\<rparr>)))) \<and>
   (fst (load_rules env s) \<noteq> 0 \<longleftrightarrow>
      errors (snd (snd (load_rules env s))) \<noteq> 0 \<or> gate_failed env (config_file (config s)))"
proof (intro conjI impI allI)
  assume "\<not> gate_failed env (config_file (config s))"
  from load_rules_gate_passed [OF this]
  show "fst (snd (load_rules env s)) =
        List.map_filter (line_rule env) (config_lines env (config_file (config s)))"
    and "errors (snd (snd (load_rules env s))) =
        int (length (filter (rejected env) (config_lines env (config_file (config s)))))"
    and "fst (load_rules env s) = errors (snd (snd (load_rules env s)))"
    by simp_all
next
  fix x :: "string \<times> int"
  assume "rejected env x"
  then show "line_rule env x = None"
    by (cases x) (auto simp: rejected_def line_rule_def split: option.splits)
next
  assume a: "get_line 1024 f lno (config_file (config t)) (trace t) = (Some line, f', lno', tr') \<and>
    rejected env (line, lno' + 1)"
  let ?p = "parse_line env line (lno' + 1) (t\<lparr>trace := tr'\<rparr>)"
  from a have "line_rule env (line, lno' + 1) = None"
    by (auto simp: rejected_def line_rule_def split: option.splits)
  with parse_line_result [where env = env and line = line and n = "lno' + 1" and s = "t\<lparr>trace := tr'\<rparr>"] a
  show r: "fst ?p = None" and "errors (snd ?p) = errors t + 1"
    by simp_all
  from a r show "load_loop env f lno rules t = load_loop env f' (lno' + 1) rules (snd ?p)"
    by (cases ?p) (simp add: load_loop.simps [of env f lno rules t])
next
  show "fst (load_rules env s) \<noteq> 0 \<longleftrightarrow>
      errors (snd (snd (load_rules env s))) \<noteq> 0 \<or> gate_failed env (config_file (config s))"
    using load_rules_gate_passed [of env s] load_rules_gate_failed [of env s]
    by (cases "gate_failed env (config_file (config s))") simp_all
qed

lemma toy_config_lines:
  "config_lines (toy_env toy_bytes) (config_file (config (toy_state m))) =
     [(''arch=b64'', 1), (''  # comment'', 2), ([], 3), (''bad'', 4), ('' uid=0'', 5)]"
  by code_simp

lemma toy_rejected:
  "filter (rejected (toy_env toy_bytes))
     [(''arch=b64'', 1), (''  # comment'', 2), ([], 3), (''bad'', 4), ('' uid=0'', 5)] = [(''bad'', 4)]"
  by code_simp

lemma toy_line_rules:
  "List.map_filter (line_rule (toy_env toy_bytes))
     [(''arch=b64'', 1), (''  # comment'', 2), ([], 3), (''bad'', 4), ('' uid=0'', 5)] =
   [\<lparr>expr = ''arch=b64'', lineno = 1\<rparr>, \<lparr>expr = ''uid=0'', lineno = 5\<rparr>]"
  by code_simp

lemma toy_gate: "\<not> gate_failed (toy_env toy_bytes) (config_file (config (toy_state m)))"
  by (simp add: gate_failed_def toy_defs S_IWOTH_def S_ISREG_def S_IFMT_def S_IFREG_def)

lemma toy_bad_line:
  "get_line 1024 (''bad'' @ [NL] @ '' uid=0'' @ [NL]) 3 (config_file (config (toy_state 0)))
     (trace (toy_state 0)) = (Some ''bad'', '' uid=0'' @ [NL], 3, [])"
  by code_simp

text \<open>
  The file of five lines: the rules of lines 1 and 5 are built, line 4 is counted,
  and the load returns 1. At line 4 the loop counts the error and goes on with line 5.
\<close>

theorem load_rules_error_count_witness:
  "fst (load_rules (toy_env toy_bytes) (toy_state 0)) = 1 \<and>
   fst (snd (load_rules (toy_env toy_bytes) (toy_state 0))) =
     [\<lparr>expr = ''arch=b64'', lineno = 1\<rparr>, \<lparr>expr = ''uid=0'', lineno = 5\<rparr>] \<and>
   errors (snd (snd (load_rules (toy_env toy_bytes) (toy_state 0)))) = 1 \<and>
   rejected (toy_env toy_bytes) (''bad'', 4) \<and>
   errors (snd (parse_line (toy_env toy_bytes) ''bad'' 4 (toy_state 0))) = 1 \<and>
   load_loop (toy_env toy_bytes) (''bad'' @ [NL] @ '' uid=0'' @ [NL]) 3 [] (toy_state 0) =
     load_loop (toy_env toy_bytes) ('' uid=0'' @ [NL]) 4 []
       (snd (parse_line (toy_env toy_bytes) ''bad'' 4 (toy_state 0)))"
proof -
  have r: "rejected (toy_env toy_bytes) (''bad'', 3 + 1)"
    by (simp add: rejected_def toy_defs empty_or_comment_def skip_spaces_def)
  have t: "(toy_state 0)\<lparr>trace := []\<rparr> = toy_state 0"
    by (simp add: toy_defs)
  from load_rules_error_count [where env = "toy_env toy_bytes" and s = "toy_state 0"
      and f = "''bad'' @ [NL] @ '' uid=0'' @ [NL]" and lno = 3 and t = "toy_state 0"
      and line = "''bad''" and f' = "'' uid=0'' @ [NL]" and lno' = 3
      and tr' = "[]" and rules = "[]",
      unfolded toy_config_lines toy_rejected toy_line_rules] toy_gate [of 0] toy_bad_line r
  show ?thesis
    by (simp add: t toy_state_def)
qed

subsection \<open>Reloading\<close>

lemma load_rules_frame:
  "(snd (snd (load_rules env s)))\<lparr>errors := e, trace := t\<rparr> = s\<lparr>errors := e, trace := t\<rparr>"
proof -
  have "(snd (load_loop env f 0 [] (s\<lparr>errors := 0\<rparr>)))\<lparr>errors := e, trace := t\<rparr> =
        s\<lparr>errors := e, trace := t\<rparr>" for f
    using load_loop_result [where env = env and f = f and lno = 0 and rules = "[]"
        and s = "s\<lparr>errors := 0\<rparr>" and e = e and t = t] by simp
  then show ?thesis
    by (simp add: load_rules_def Let_def syslog_def split_beta split: sum.splits option.splits)
qed

lemma reload_config_list:
  "list (reload_config env s) =
     (if fst (load_rules env (set_hup 0 s)) \<noteq> 0 then list s
      else fst (snd (load_rules env (set_hup 0 s))))"
proof -
  obtain rc new_list s' where l: "load_rules env (set_hup 0 s) = (rc, new_list, s')"
    by (cases "load_rules env (set_hup 0 s)")
  from load_rules_frame [where env = env and s = "set_hup 0 s" and e = 0 and t = "[]"] l
  have "list (s'\<lparr>errors := 0, trace := []\<rparr>) = list ((set_hup 0 s)\<lparr>errors := 0, trace := []\<rparr>)"
    by simp
  then have "list s' = list s"
    by (simp add: set_hup_def)
  with l show ?thesis
    by (simp add: reload_config_def syslog_def)
qed

text \<open>
  C2. If one of the lines that the reload reads from the config file is rejected by
  the engine, whatever the other lines are, the rule list after \<^verbatim>\<open>reload_config\<close> is the
  list before it: no rule of the file becomes active and no active rule is removed.
\<close>

theorem reload_config_atomic:
  assumes "x \<in> set (config_lines env (config_file (config s)))"
    and "rejected env x"
  shows "list (reload_config env s) = list s"
proof -
  let ?s = "set_hup 0 s"
  have c: "config ?s = config s" by (simp add: set_hup_def)
  have "fst (load_rules env ?s) \<noteq> 0"
  proof (cases "gate_failed env (config_file (config s))")
    case True
    with load_rules_gate_failed [of env ?s] c show ?thesis by simp
  next
    case False
    from assms have "filter (rejected env) (config_lines env (config_file (config s))) \<noteq> []"
      by (auto simp: filter_empty_conv)
    with False load_rules_gate_passed [of env ?s] c show ?thesis by simp
  qed
  then show ?thesis by (simp add: reload_config_list)
qed

text \<open>
  Reloading the file of five lines while the rule \<open>uid=0\<close> is active: the list stays
  as it is, and the two valid rules of the file are not used.
\<close>

theorem reload_config_atomic_witness:
  "(''bad'', 4) \<in> set (config_lines (toy_env toy_bytes) (config_file (config ((toy_state 0)\<lparr>list := toy_rules\<rparr>)))) \<and>
   rejected (toy_env toy_bytes) (''bad'', 4) \<and>
   list (reload_config (toy_env toy_bytes) ((toy_state 0)\<lparr>list := toy_rules\<rparr>)) = toy_rules"
proof -
  have c: "config ((toy_state 0)\<lparr>list := toy_rules\<rparr>) = config (toy_state 0)"
    by simp
  have a: "(''bad'', 4) \<in> set (config_lines (toy_env toy_bytes) (config_file (config ((toy_state 0)\<lparr>list := toy_rules\<rparr>))))"
    by (simp add: c toy_config_lines)
  have b: "rejected (toy_env toy_bytes) (''bad'', 4)"
    by (simp add: rejected_def toy_defs empty_or_comment_def skip_spaces_def)
  from reload_config_atomic [OF a b] a b show ?thesis by simp
qed

end
